theory Spec2Isabelle
  imports Complex_Main "HOL-Library.Sublist"
begin

section \<open>The skincare recommendation agent: data model\<close>

text \<open>
  The repository is a small Express server in front of one function,
  \<^verbatim>\<open>callAgent\<close> (\<^verbatim>\<open>agent.ts\<close>), which wires a two-node LangGraph state graph
  (\<^verbatim>\<open>agent\<close>, \<^verbatim>\<open>tools\<close>) around a chat model, one tool (\<^verbatim>\<open>product_lookup\<close>)
  and a MongoDB checkpointer.  The embedding below follows \<^verbatim>\<open>agent.ts\<close> line by line.

  Everything the code reaches over the network or through a language builtin is a field
  of the record \<open>env\<close>: the two models, the vector search, the file system, the clock and
  the JSON builtins.  Every call of a collaborator is logged in the \<open>trace\<close> of the
  \<open>world\<close>, next to the checkpoint store, so that "how often" and "before which call"
  are statements about a list.

  \<^verbatim>\<open>agent.ts\<close> holds a second, earlier text of \<^verbatim>\<open>callAgent\<close> that takes the query as a
  plain chat message.  The server passes \<^verbatim>\<open>JSON.stringify(userResponses)\<close>, which is the
  interface of the first text; that one is modelled.
\<close>

subsection \<open>JavaScript values\<close>

text \<open>
  Values that stay dynamically typed in the source (tool arguments, the questionnaire,
  search results).  Numbers are the rationals, which hold the counts the code supplies and
  the fractions a caller may send; \<^verbatim>\<open>NaN\<close> and the infinities are not values of the
  model.
\<close>

datatype jsval =
    JUndefined
  | JNull
  | JBool bool
  | JNumber rat
  | JString string
  | JArray "jsval list"
  | JObject "(string \<times> jsval) list"

text \<open>Property access \<^verbatim>\<open>o.k\<close>: \<^verbatim>\<open>undefined\<close> for a missing property.\<close>

fun get_prop :: "jsval \<Rightarrow> string \<Rightarrow> jsval" where
  "get_prop (JObject kvs) k = (case map_of kvs k of None \<Rightarrow> JUndefined | Some v \<Rightarrow> v)"
| "get_prop _ k = JUndefined"

subsection \<open>Errors\<close>

text \<open>
  Every \<^verbatim>\<open>throw\<close> and every rejected promise is a value \<open>Inl e\<close>.  \<open>error_message\<close>
  is the \<^verbatim>\<open>message\<close> property, which the tool node quotes.
\<close>

datatype error =
    SyntaxError string
  | IOError string
  | ModelInvocationError string
  | ToolInputParsingException
  | ToolNotFound string
  | ToolExecutionError string
  | GraphRecursionError nat
  | TypeError string
  | ToolNodeInputError

subsection \<open>Decimal rendering of a non-negative integer\<close>

text \<open>\<^verbatim>\<open>Number.prototype.toString()\<close> on a non-negative integer below \<open>10^21\<close>.\<close>

definition digit_char :: "nat \<Rightarrow> char" where
  "digit_char d = ''0123456789'' ! d"

function toString_nat :: "nat \<Rightarrow> string" where
  "toString_nat n =
     (if n < 10 then [digit_char n] else toString_nat (n div 10) @ [digit_char (n mod 10)])"
  by pat_completeness auto
termination
  by (relation "measure id") auto

declare toString_nat.simps [simp del]

fun error_message :: "error \<Rightarrow> string" where
  "error_message (SyntaxError m) = m"
| "error_message (IOError m) = m"
| "error_message (ModelInvocationError m) = m"
| "error_message ToolInputParsingException =
     ''Received tool input did not match expected schema''"
| "error_message (ToolNotFound n) = ''Tool '' @ [CHR 0x22] @ n @ [CHR 0x22] @ '' not found.''"
| "error_message (ToolExecutionError m) = m"
| "error_message (GraphRecursionError l) =
     ''Recursion limit of '' @ toString_nat l @
     '' reached without hitting a stop condition. You can increase the limit by setting the ''
     @ [CHR 0x22] @ ''recursionLimit'' @ [CHR 0x22] @ '' config key.'' @ [CHR 0x0A, CHR 0x0A] @
     ''Troubleshooting URL: https://langchain-ai.github.io/langgraphjs/troubleshooting/errors/GRAPH_RECURSION_LIMIT/''
     @ [CHR 0x0A]"
| "error_message (TypeError m) = m"
| "error_message ToolNodeInputError = ''ToolNode only accepts AIMessages as input.''"

subsection \<open>Messages\<close>

record tool_call =
  tc_name :: string
  tc_args :: jsval
  tc_id :: string

datatype content_part = TextPart string | ImageUrlPart string

datatype content = Text string | Parts "content_part list"

text \<open>
  \<open>ToolMessage content name tool_call_id\<close>.  An assistant message carries its text and
  its tool-call requests.
\<close>

datatype message =
    SystemMessage content
  | HumanMessage content
  | AIMessage string "tool_call list"
  | ToolMessage string string string

fun message_content :: "message \<Rightarrow> content" where
  "message_content (SystemMessage c) = c"
| "message_content (HumanMessage c) = c"
| "message_content (AIMessage c tcs) = Text c"
| "message_content (ToolMessage c n i) = Text c"

subsection \<open>Graph state, collaborators, world\<close>

text \<open>\<^verbatim>\<open>GraphState\<close>: the three annotated channels.\<close>

record graph_state =
  messages :: "message list"
  imageAnalysis :: "string option"
  userResponses :: jsval

text \<open>The reducers of \<^verbatim>\<open>Annotation.Root\<close>, as written.\<close>

definition messages_reducer :: "message list \<Rightarrow> message list \<Rightarrow> message list" where
  "messages_reducer x y = x @ y"

definition imageAnalysis_reducer :: "string option \<Rightarrow> string option \<Rightarrow> string option" where
  "imageAnalysis_reducer x y = y"

definition userResponses_reducer :: "jsval \<Rightarrow> jsval \<Rightarrow> jsval" where
  "userResponses_reducer x y = y"

text \<open>
  The collaborators.  \<open>Date_now\<close> is read at the number of collaborator calls made so
  far, so successive readings may differ.
\<close>

record env =
  JSON_parse :: "string \<Rightarrow> error + jsval"
  JSON_stringify :: "jsval \<Rightarrow> nat option \<Rightarrow> string"
  readFileSync :: "string \<Rightarrow> error + string"
  toBase64 :: "string \<Rightarrow> string"
  vision_invoke :: "message list \<Rightarrow> error + string"
  model_invoke :: "message list \<Rightarrow> error + string \<times> tool_call list"
  similaritySearchWithScore :: "jsval \<Rightarrow> jsval \<Rightarrow> error + jsval"
  Date_now :: "nat \<Rightarrow> nat"
  toISOString :: "nat \<Rightarrow> string"

datatype event =
    VisionInvoke "message list"
  | ModelInvoke "message list"
  | SearchInvoke jsval jsval

record world =
  trace :: "event list"
  store :: "string \<rightharpoonup> graph_state"

definition log_event :: "event \<Rightarrow> world \<Rightarrow> world" where
  "log_event ev w = w\<lparr>trace := trace w @ [ev]\<rparr>"

fun is_ModelInvoke :: "event \<Rightarrow> bool" where
  "is_ModelInvoke (ModelInvoke p) = True"
| "is_ModelInvoke _ = False"

fun is_VisionInvoke :: "event \<Rightarrow> bool" where
  "is_VisionInvoke (VisionInvoke p) = True"
| "is_VisionInvoke _ = False"

fun is_SearchInvoke :: "event \<Rightarrow> bool" where
  "is_SearchInvoke (SearchInvoke q n) = True"
| "is_SearchInvoke _ = False"

definition agent_invocations :: "world \<Rightarrow> nat" where
  "agent_invocations w = length (filter is_ModelInvoke (trace w))"

definition vision_invocations :: "world \<Rightarrow> nat" where
  "vision_invocations w = length (filter is_VisionInvoke (trace w))"

section \<open>The tool and its schema\<close>

subsection \<open>The schema language (zod)\<close>

text \<open>
  The fragment of zod that the tool's schema uses.  \<^verbatim>\<open>.describe(...)\<close> only attaches
  documentation and is dropped.  Parsing follows zod: \<^verbatim>\<open>.optional()\<close> lets
  \<^verbatim>\<open>undefined\<close> through, \<^verbatim>\<open>.default(d)\<close> replaces \<^verbatim>\<open>undefined\<close> by \<open>d\<close> and then
  parses with the inner type, \<^verbatim>\<open>z.object\<close> parses each declared key and strips the
  others.
\<close>

datatype zod_type =
    ZodString
  | ZodNumber
  | ZodOptional zod_type
  | ZodDefault zod_type jsval

fun zod_parse :: "zod_type \<Rightarrow> jsval \<Rightarrow> error + jsval" where
  "zod_parse ZodString (JString s) = Inr (JString s)"
| "zod_parse ZodString v = Inl ToolInputParsingException"
| "zod_parse ZodNumber (JNumber k) = Inr (JNumber k)"
| "zod_parse ZodNumber v = Inl ToolInputParsingException"
| "zod_parse (ZodOptional t) v = (if v = JUndefined then Inr JUndefined else zod_parse t v)"
| "zod_parse (ZodDefault t d) v = (if v = JUndefined then zod_parse t d else zod_parse t v)"

fun zod_parse_shape :: "(string \<times> zod_type) list \<Rightarrow> jsval \<Rightarrow> error + (string \<times> jsval) list" where
  "zod_parse_shape [] inp = Inr []"
| "zod_parse_shape ((k, t) # shape) inp =
     (case zod_parse t (get_prop inp k) of
        Inl e \<Rightarrow> Inl e
      | Inr v \<Rightarrow>
          (case zod_parse_shape shape inp of
             Inl e \<Rightarrow> Inl e
           | Inr kvs \<Rightarrow> Inr (if v = JUndefined then kvs else (k, v) # kvs)))"

fun zod_parse_object :: "(string \<times> zod_type) list \<Rightarrow> jsval \<Rightarrow> error + jsval" where
  "zod_parse_object shape (JObject kvs) =
     (case zod_parse_shape shape (JObject kvs) of
        Inl e \<Rightarrow> Inl e
      | Inr out \<Rightarrow> Inr (JObject out))"
| "zod_parse_object shape v = Inl ToolInputParsingException"

subsection \<open>\<^verbatim>\<open>prodLookupTool\<close>\<close>

record tool =
  tool_name :: string
  tool_description :: string
  tool_schema :: "(string \<times> zod_type) list"
  tool_func :: "env \<Rightarrow> jsval \<Rightarrow> world \<Rightarrow> (error + string) \<times> world"

text \<open>
  The handler \<^verbatim>\<open>async ({ query, n = 4 }) => ...\<close>: the destructuring default applies
  when property \<^verbatim>\<open>n\<close> is \<^verbatim>\<open>undefined\<close>.
\<close>

definition prodLookupTool_func :: "env \<Rightarrow> jsval \<Rightarrow> world \<Rightarrow> (error + string) \<times> world" where
  "prodLookupTool_func e inp w =
     (let query = get_prop inp ''query'';
          n = (if get_prop inp ''n'' = JUndefined then JNumber 4 else get_prop inp ''n'');
          w' = log_event (SearchInvoke query n) w
      in case similaritySearchWithScore e query n of
           Inl err \<Rightarrow> (Inl err, w')
         | Inr result \<Rightarrow> (Inr (JSON_stringify e result None), w'))"

definition prodLookupTool_schema :: "(string \<times> zod_type) list" where
  "prodLookupTool_schema =
     [(''query'', ZodString),
      (''n'', ZodDefault (ZodOptional ZodNumber) (JNumber 10))]"

definition prodLookupTool :: tool where
  "prodLookupTool =
     \<lparr> tool_name = ''product_lookup'',
       tool_description = ''Gathers product details from the prod database'',
       tool_schema = prodLookupTool_schema,
       tool_func = prodLookupTool_func \<rparr>"

definition tools :: "tool list" where
  "tools = [prodLookupTool]"

text \<open>
  \<^verbatim>\<open>tool.invoke(call)\<close> of a structured tool: the arguments are parsed with the schema
  first; a mismatch throws \<^verbatim>\<open>ToolInputParsingException\<close>; the handler receives the
  \<^emph>\<open>parsed\<close> object.
\<close>

definition tool_invoke :: "env \<Rightarrow> tool \<Rightarrow> tool_call \<Rightarrow> world \<Rightarrow> (error + string) \<times> world" where
  "tool_invoke e t call w =
     (case zod_parse_object (tool_schema t) (tc_args call) of
        Inl err \<Rightarrow> (Inl ToolInputParsingException, w)
      | Inr parsed \<Rightarrow> tool_func t e parsed w)"

subsection \<open>The prebuilt tool node\<close>

text \<open>
  \<^verbatim>\<open>new ToolNode(tools)\<close> is built without options, so \<^verbatim>\<open>handleToolErrors\<close> has the
  class's default, \<^verbatim>\<open>true\<close>: whatever a tool call throws is caught and answered with
  a tool message \<^verbatim>\<open>Error: <message>\n Please fix your mistakes.\<close>  The node runs the
  calls of the last message, which must be an assistant message, and returns one tool
  message per call in request order.  The source runs them under \<^verbatim>\<open>Promise.all\<close>; the
  model runs them one after the other.
\<close>

record toolNode =
  tn_tools :: "tool list"
  handleToolErrors :: bool

definition ToolNode :: "tool list \<Rightarrow> toolNode" where
  "ToolNode ts = \<lparr> tn_tools = ts, handleToolErrors = True \<rparr>"

definition tool_error_message :: "error \<Rightarrow> tool_call \<Rightarrow> message" where
  "tool_error_message err call =
     ToolMessage (''Error: '' @ error_message err @ [CHR 0x0A] @ '' Please fix your mistakes.'')
       (tc_name call) (tc_id call)"

definition run_call :: "env \<Rightarrow> toolNode \<Rightarrow> tool_call \<Rightarrow> world \<Rightarrow> (error + message) \<times> world" where
  "run_call e tn call w =
     (case (case find (\<lambda>t. tool_name t = tc_name call) (tn_tools tn) of
              None \<Rightarrow> (Inl (ToolNotFound (tc_name call)), w)
            | Some t \<Rightarrow> tool_invoke e t call w) of
        (Inr output, w') \<Rightarrow> (Inr (ToolMessage output (tc_name call) (tc_id call)), w')
      | (Inl err, w') \<Rightarrow>
          (if handleToolErrors tn then (Inr (tool_error_message err call), w')
           else (Inl err, w')))"

fun run_calls :: "env \<Rightarrow> toolNode \<Rightarrow> tool_call list \<Rightarrow> world \<Rightarrow> (error + message list) \<times> world" where
  "run_calls e tn [] w = (Inr [], w)"
| "run_calls e tn (c # cs) w =
     (case run_call e tn c w of
        (Inl err, w') \<Rightarrow> (Inl err, w')
      | (Inr m, w') \<Rightarrow>
          (case run_calls e tn cs w' of
             (Inl err, w'') \<Rightarrow> (Inl err, w'')
           | (Inr ms, w'') \<Rightarrow> (Inr (m # ms), w'')))"

definition toolNode_run :: "env \<Rightarrow> toolNode \<Rightarrow> graph_state \<Rightarrow> world \<Rightarrow> (error + message list) \<times> world" where
  "toolNode_run e tn st w =
     (if messages st = [] then (Inl ToolNodeInputError, w)
      else case last (messages st) of
             AIMessage c tcs \<Rightarrow> run_calls e tn tcs w
           | _ \<Rightarrow> (Inl ToolNodeInputError, w))"

definition toolNode :: toolNode where
  "toolNode = ToolNode tools"

section \<open>\<^verbatim>\<open>callAgent\<close>\<close>

subsection \<open>The fixed texts\<close>

definition dq :: string where
  "dq = [CHR 0x22]"

definition join :: "string \<Rightarrow> string list \<Rightarrow> string" where
  "join sep xs = (case xs of [] \<Rightarrow> [] | y # ys \<Rightarrow> foldl (\<lambda>acc x. acc @ sep @ x) y ys)"

definition unlines :: "string list \<Rightarrow> string" where
  "unlines xs = join [CHR 0x0A] xs"

definition vision_system_text :: string where
  "vision_system_text =
     ''You are an AI Dermatologist and Skincare Expert specializing in providing tailored skincare advice based on image analysis. Your task is to analyze the provided image description and generate a structured response detailing your findings.''"

definition vision_instruction_lines :: "string list" where
  "vision_instruction_lines =
     [''You are an AI Dermatologist and Skincare Expert specializing in providing tailored skincare advice based on image analysis. Your task is to analyze the provided image description and generate a structured response detailing your findings.'',
      '''',
      ''Please follow these steps to complete your analysis:'',
      '''',
      ''1. Carefully review the image.'',
      ''2. Use your expertise to determine the skin condition, skin type, visible conditions, severity, and affected areas based on the information given.'',
      ''3. Before formulating your final response, wrap your observations and reasoning inside <dermatological_assessment> tags. This step is crucial for ensuring a thorough and accurate assessment. In this section:'',
      ''   - List out key observations from the image analysis, categorizing them into skin type, visible conditions, severity, and affected areas.'',
      ''   - Consider potential alternative diagnoses and explain why they were ruled out.'',
      ''   - It's OK for this section to be quite long.'',
      ''4. After your assessment, provide your findings in the specified JSON format.'',
      '''',
      ''Important Instructions:'',
      ''- Always provide a diagnosis based on the image analysis.'',
      ''- Strictly adhere to the requested output format.'',
      ''- Do not include any additional text or explanations outside of the JSON structure.'',
      '''',
      ''The required output format is as follows:'',
      '''',
      ''{'',
      ''  '' @ dq @ ''skin_analysis'' @ dq @ '': {'',
      ''    '' @ dq @ ''skin_type'' @ dq @ '': '' @ dq @ dq @ '','',
      ''    '' @ dq @ ''visible_conditions'' @ dq @ '': {'',
      ''      '' @ dq @ ''primary'' @ dq @ '': '' @ dq @ dq @ '','',
      ''      '' @ dq @ ''secondary'' @ dq @ '': '' @ dq @ dq @ '','',
      ''      '' @ dq @ ''other_observations'' @ dq @ '': []'',
      ''    }'',
      ''  },'',
      ''  '' @ dq @ ''severity'' @ dq @ '': '' @ dq @ dq @ '','',
      ''  '' @ dq @ ''affected_areas'' @ dq @ '': []'',
      ''}'',
      '''',
      ''Please ensure that all fields are filled appropriately based on your analysis. If a field is not applicable, use an empty string or empty array as appropriate.'',
      '''',
      ''Begin your response with your dermatological assessment, followed by the JSON output.'']"

definition prompt_segment0_lines :: "string list" where
  "prompt_segment0_lines =
     [''You are an AI Skincare Expert specializing in providing personalized skincare recommendations. Your task is to analyze both the user's questionnaire responses and image analysis (if available) to provide tailored product recommendations.'',
      '''',
      ''Current Context:'',
      ''- User Questionnaire: '']"

definition prompt_segment1_lines :: "string list" where
  "prompt_segment1_lines =
     ['''',
      ''- Image Analysis: '']"

definition prompt_segment2_lines :: "string list" where
  "prompt_segment2_lines =
     ['''',
      '''',
      ''Based on this information:'',
      ''1. Analyze both the questionnaire responses and image analysis'',
      ''2. Identify the key skincare needs and concerns'',
      ''3. Use the product lookup tool to find suitable products'',
      ''4. Provide a comprehensive recommendation with explanation'',
      '''',
      ''Format your response as follows:'',
      ''1. Brief analysis of the user's skin condition and needs'',
      ''2. Product recommendations with explanations for each'',
      ''3. Usage instructions and any additional advice'',
      '''',
      ''You have access to the following tools: '']"

definition prompt_segment3_lines :: "string list" where
  "prompt_segment3_lines =
     ['''',
      ''Current time: '']"

definition no_image_analysis :: string where
  "no_image_analysis = ''No image analysis available''"

definition seed_request_text :: string where
  "seed_request_text =
     ''Please provide skincare recommendations based on my responses and image.''"

text \<open>
  The system template of \<^verbatim>\<open>callModel\<close>, with its four placeholders filled in the order
  in which they stand: \<^verbatim>\<open>{user_responses}\<close>, \<^verbatim>\<open>{image_analysis}\<close>, \<^verbatim>\<open>{tool_names}\<close>,
  \<^verbatim>\<open>{time}\<close> (the template ends with the last one).
\<close>

definition system_prompt :: "string \<Rightarrow> string \<Rightarrow> string \<Rightarrow> string \<Rightarrow> string" where
  "system_prompt user_responses image_analysis tool_names time =
     unlines prompt_segment0_lines @ user_responses @
     unlines prompt_segment1_lines @ image_analysis @
     unlines prompt_segment2_lines @ tool_names @
     unlines prompt_segment3_lines @ time"

subsection \<open>The closure and the two nodes\<close>

text \<open>
  What the inner functions of \<^verbatim>\<open>callAgent\<close> capture: the parsed questionnaire, the image
  analysis, and the configuration passed to \<^verbatim>\<open>app.invoke\<close>.
\<close>

record closure =
  cl_userResponses :: jsval
  cl_imageAnalysis :: "string option"
  cl_thread_id :: string
  cl_recursionLimit :: nat

text \<open>\<^verbatim>\<open>imageAnalysis || "No image analysis available"\<close>: \<^verbatim>\<open>null\<close> and \<^verbatim>\<open>""\<close> are falsy.\<close>

definition image_analysis_or_default :: "string option \<Rightarrow> string" where
  "image_analysis_or_default ia =
     (case ia of None \<Rightarrow> no_image_analysis
      | Some a \<Rightarrow> if a = [] then no_image_analysis else a)"

definition formatMessages :: "env \<Rightarrow> closure \<Rightarrow> graph_state \<Rightarrow> world \<Rightarrow> message list" where
  "formatMessages e cl st w =
     SystemMessage (Text (system_prompt
        (JSON_stringify e (cl_userResponses cl) (Some 2))
        (image_analysis_or_default (cl_imageAnalysis cl))
        (join '', '' (map tool_name tools))
        (toISOString e (Date_now e (length (trace w))))))
     # messages st"

definition callModel :: "env \<Rightarrow> closure \<Rightarrow> graph_state \<Rightarrow> world \<Rightarrow> (error + message list) \<times> world" where
  "callModel e cl st w =
     (let formattedPrompt = formatMessages e cl st w;
          w' = log_event (ModelInvoke formattedPrompt) w
      in case model_invoke e formattedPrompt of
           Inl err \<Rightarrow> (Inl err, w')
         | Inr (c, tcs) \<Rightarrow> (Inr [AIMessage c tcs], w'))"

datatype node = Agent | Tools | End

text \<open>
  \<^verbatim>\<open>shouldContinue\<close>: \<^verbatim>\<open>lastMessage.tool_calls?.length\<close> is truthy for a non-empty list
  of tool calls only; reading a property of \<^verbatim>\<open>messages[-1]\<close> throws.
\<close>

definition shouldContinue :: "graph_state \<Rightarrow> error + node" where
  "shouldContinue st =
     (if messages st = [] then Inl (TypeError ''Cannot read properties of undefined'')
      else case last (messages st) of
             AIMessage c tcs \<Rightarrow> if length tcs > 0 then Inr Tools else Inr End
           | _ \<Rightarrow> Inr End)"

subsection \<open>Running the compiled graph\<close>

text \<open>
  \<^verbatim>\<open>workflow.compile({ checkpointer }).invoke(input, config)\<close>.  The runner is LangGraph's;
  what the model takes from it:
  \<^item> the checkpoint of \<^verbatim>\<open>thread_id\<close> is loaded, and a thread without one starts from
    empty channels;
  \<^item> the input is written through the reducers, then the graph runs from
    \<^verbatim>\<open>__start__\<close>, whose only edge leads to \<^verbatim>\<open>agent\<close>;
  \<^item> each step runs one node, writes its update through the reducers and saves a
    checkpoint; the edges are \<^verbatim>\<open>agent\<close> \<open>\<rightarrow>\<close> \<^verbatim>\<open>shouldContinue\<close> and
    \<^verbatim>\<open>tools\<close> \<open>\<rightarrow>\<close> \<^verbatim>\<open>agent\<close>;
  \<^item> \<^verbatim>\<open>recursionLimit\<close> is the number of steps one \<^verbatim>\<open>invoke\<close> may take.  After a
    step the runner first tests whether the steps are used up, and throws
    \<^verbatim>\<open>GraphRecursionError\<close> if they are; only then does it look for the next node.  So
    a run whose last allowed step leads to \<^verbatim>\<open>__end__\<close> is aborted as well: with the
    limit 15 a run succeeds only if it reaches \<^verbatim>\<open>__end__\<close> within 14 steps.
\<close>

definition put_checkpoint :: "string \<Rightarrow> graph_state \<Rightarrow> world \<Rightarrow> world" where
  "put_checkpoint tid st w = w\<lparr>store := (store w)(tid \<mapsto> st)\<rparr>"

definition write_messages :: "closure \<Rightarrow> graph_state \<Rightarrow> message list \<Rightarrow> world \<Rightarrow> graph_state \<times> world" where
  "write_messages cl st upd w =
     (let st' = st\<lparr>messages := messages_reducer (messages st) upd\<rparr>
      in (st', put_checkpoint (cl_thread_id cl) st' w))"

fun pregel_loop :: "env \<Rightarrow> closure \<Rightarrow> nat \<Rightarrow> node \<Rightarrow> graph_state \<Rightarrow> world \<Rightarrow> (error + graph_state) \<times> world" where
  "pregel_loop e cl 0 nd st w = (Inl (GraphRecursionError (cl_recursionLimit cl)), w)"
| "pregel_loop e cl (Suc k) End st w = (Inr st, w)"
| "pregel_loop e cl (Suc k) Agent st w =
     (case callModel e cl st w of
        (Inl err, w') \<Rightarrow> (Inl err, w')
      | (Inr upd, w') \<Rightarrow>
          (case write_messages cl st upd w' of
             (st', w'') \<Rightarrow>
               (case shouldContinue st' of
                  Inl err \<Rightarrow> (Inl err, w'')
                | Inr nxt \<Rightarrow> pregel_loop e cl k nxt st' w'')))"
| "pregel_loop e cl (Suc k) Tools st w =
     (case toolNode_run e toolNode st w of
        (Inl err, w') \<Rightarrow> (Inl err, w')
      | (Inr upd, w') \<Rightarrow>
          (case write_messages cl st upd w' of
             (st', w'') \<Rightarrow> pregel_loop e cl k Agent st' w''))"

definition empty_channels :: graph_state where
  "empty_channels = \<lparr> messages = [], imageAnalysis = None, userResponses = JUndefined \<rparr>"

definition load_checkpoint :: "world \<Rightarrow> string \<Rightarrow> graph_state" where
  "load_checkpoint w tid = (case store w tid of None \<Rightarrow> empty_channels | Some st \<Rightarrow> st)"

definition write_input :: "graph_state \<Rightarrow> graph_state \<Rightarrow> graph_state" where
  "write_input saved inp =
     \<lparr> messages = messages_reducer (messages saved) (messages inp),
       imageAnalysis = imageAnalysis_reducer (imageAnalysis saved) (imageAnalysis inp),
       userResponses = userResponses_reducer (userResponses saved) (userResponses inp) \<rparr>"

definition app_invoke :: "env \<Rightarrow> closure \<Rightarrow> graph_state \<Rightarrow> world \<Rightarrow> (error + graph_state) \<times> world" where
  "app_invoke e cl inp w =
     (let st0 = write_input (load_checkpoint w (cl_thread_id cl)) inp;
          w0 = put_checkpoint (cl_thread_id cl) st0 w
      in pregel_loop e cl (cl_recursionLimit cl) Agent st0 w0)"

subsection \<open>The image branch and the body of \<^verbatim>\<open>callAgent\<close>\<close>

text \<open>
  The block \<^verbatim>\<open>if (image_path) { ... }\<close>: an empty path is falsy.  The file is read, the
  vision model is invoked with the two fixed messages, and its reply is kept as a string.
\<close>

definition vision_messages :: "env \<Rightarrow> string \<Rightarrow> message list" where
  "vision_messages e file =
     [SystemMessage (Text vision_system_text),
      HumanMessage (Parts [TextPart (unlines vision_instruction_lines),
                           ImageUrlPart (''data:image/jpeg;base64,'' @ toBase64 e file)])]"

definition image_branch :: "env \<Rightarrow> string option \<Rightarrow> world \<Rightarrow> (error + string option) \<times> world" where
  "image_branch e image_path w =
     (case image_path of
        None \<Rightarrow> (Inr None, w)
      | Some p \<Rightarrow>
          if p = [] then (Inr None, w)
          else (case readFileSync e p of
                  Inl err \<Rightarrow> (Inl err, w)
                | Inr file \<Rightarrow>
                    (let w' = log_event (VisionInvoke (vision_messages e file)) w
                     in case vision_invoke e (vision_messages e file) of
                          Inl err \<Rightarrow> (Inl err, w')
                        | Inr response \<Rightarrow> (Inr (Some response), w'))))"

definition callAgent :: "env \<Rightarrow> string \<Rightarrow> string \<Rightarrow> string option \<Rightarrow> world \<Rightarrow> (error + content) \<times> world" where
  "callAgent e query thread_id image_path w =
     (case JSON_parse e query of
        Inl err \<Rightarrow> (Inl err, w)
      | Inr ur \<Rightarrow>
          (case image_branch e image_path w of
             (Inl err, w1) \<Rightarrow> (Inl err, w1)
           | (Inr ia, w1) \<Rightarrow>
               (case app_invoke e
                       \<lparr> cl_userResponses = ur, cl_imageAnalysis = ia,
                         cl_thread_id = thread_id, cl_recursionLimit = 15 \<rparr>
                       \<lparr> messages = [HumanMessage (Text seed_request_text)],
                         imageAnalysis = ia, userResponses = ur \<rparr> w1 of
                  (Inl err, w2) \<Rightarrow> (Inl err, w2)
                | (Inr finalState, w2) \<Rightarrow>
                    (if messages finalState = []
                     then (Inl (TypeError ''Cannot read properties of undefined''), w2)
                     else (Inr (message_content (last (messages finalState))), w2)))))"

subsection \<open>The prompt of the second text of \<^verbatim>\<open>callAgent\<close>\<close>




subsection \<open>Two calls in flight\<close>

text \<open>
  \<^verbatim>\<open>callAgent\<close> is asynchronous: it awaits the checkpointer, the models and the tools,
  and the server handles other requests in the meantime.  \<open>callAgent_begin\<close> is
  \<^verbatim>\<open>callAgent\<close> up to the point where \<^verbatim>\<open>app.invoke\<close> has read the checkpoint and written
  the input into the channels it holds; \<open>callAgent_finish\<close> is the rest, from the first
  checkpoint it saves.  \<open>callAgent_overlapping\<close> is the schedule of two calls on one
  thread in which the second reads the checkpoint before the first has saved anything.
\<close>

definition callAgent_begin :: "env \<Rightarrow> string \<Rightarrow> string \<Rightarrow> string option \<Rightarrow> world \<Rightarrow> (error + closure \<times> graph_state) \<times> world" where
  "callAgent_begin e query thread_id image_path w =
     (case JSON_parse e query of
        Inl err \<Rightarrow> (Inl err, w)
      | Inr ur \<Rightarrow>
          (case image_branch e image_path w of
             (Inl err, w1) \<Rightarrow> (Inl err, w1)
           | (Inr ia, w1) \<Rightarrow>
               (Inr (\<lparr> cl_userResponses = ur, cl_imageAnalysis = ia,
                       cl_thread_id = thread_id, cl_recursionLimit = 15 \<rparr>,
                     write_input (load_checkpoint w1 thread_id)
                       \<lparr> messages = [HumanMessage (Text seed_request_text)],
                         imageAnalysis = ia, userResponses = ur \<rparr>), w1)))"

definition callAgent_finish :: "env \<Rightarrow> closure \<Rightarrow> graph_state \<Rightarrow> world \<Rightarrow> (error + content) \<times> world" where
  "callAgent_finish e cl st0 w =
     (case pregel_loop e cl (cl_recursionLimit cl) Agent st0
             (put_checkpoint (cl_thread_id cl) st0 w) of
        (Inl err, w2) \<Rightarrow> (Inl err, w2)
      | (Inr finalState, w2) \<Rightarrow>
          (if messages finalState = []
           then (Inl (TypeError ''Cannot read properties of undefined''), w2)
           else (Inr (message_content (last (messages finalState))), w2)))"


section \<open>The two routes of the server\<close>

record http_response =
  status :: nat
  body :: jsval

record questionnaire =
  skinType :: jsval
  mainConcerns :: jsval
  breakoutFrequency :: jsval
  productSensitivity :: jsval
  skinCareRoutine :: jsval

fun content_json :: "content \<Rightarrow> jsval" where
  "content_json (Text s) = JString s"
| "content_json (Parts ps) =
     JArray (map (\<lambda>p. case p of
                TextPart t \<Rightarrow> JObject [(''type'', JString ''text''), (''text'', JString t)]
              | ImageUrlPart u \<Rightarrow>
                  JObject [(''type'', JString ''image_url''),
                           (''image_url'', JObject [(''url'', JString u)])]) ps)"

definition internal_server_error :: http_response where
  "internal_server_error =
     \<lparr> status = 500, body = JObject [(''error'', JString ''Internal server error'')] \<rparr>"

text \<open>
  \<^verbatim>\<open>POST /chat\<close>.  \<open>file_path\<close> is \<^verbatim>\<open>req.file?.path\<close>; the thread identifier is
  \<^verbatim>\<open>Date.now().toString()\<close>.
\<close>

definition post_chat_threadId :: "env \<Rightarrow> world \<Rightarrow> string" where
  "post_chat_threadId e w = toString_nat (Date_now e (length (trace w)))"

definition post_chat_userResponses :: "questionnaire \<Rightarrow> jsval" where
  "post_chat_userResponses req_body =
     JObject [(''skinType'', skinType req_body),
              (''mainConcerns'', mainConcerns req_body),
              (''breakoutFrequency'', breakoutFrequency req_body),
              (''productSensitivity'', productSensitivity req_body),
              (''skinCareRoutine'', skinCareRoutine req_body)]"

text \<open>\<^verbatim>\<open>path || null\<close>.\<close>

definition post_chat_path :: "string option \<Rightarrow> string option" where
  "post_chat_path file_path =
     (case file_path of None \<Rightarrow> None | Some p \<Rightarrow> if p = [] then None else Some p)"

definition post_chat :: "env \<Rightarrow> questionnaire \<Rightarrow> string option \<Rightarrow> world \<Rightarrow> http_response \<times> world" where
  "post_chat e req_body file_path w =
     (let threadId = post_chat_threadId e w;
          userResponses = post_chat_userResponses req_body
      in case callAgent e (JSON_stringify e userResponses None) threadId
                (post_chat_path file_path) w of
           (Inr response, w') \<Rightarrow>
             (\<lparr> status = 200,
                body = JObject [(''threadId'', JString threadId),
                                (''response'', content_json response)] \<rparr>, w')
         | (Inl err, w') \<Rightarrow> (internal_server_error, w'))"

text \<open>\<^verbatim>\<open>POST /chat/:threadId\<close>.\<close>

definition post_chat_thread :: "env \<Rightarrow> string \<Rightarrow> string \<Rightarrow> world \<Rightarrow> http_response \<times> world" where
  "post_chat_thread e threadId message w =
     (case callAgent e message threadId None w of
        (Inr response, w') \<Rightarrow>
          (\<lparr> status = 200, body = JObject [(''response'', content_json response)] \<rparr>, w')
      | (Inl err, w') \<Rightarrow> (internal_server_error, w'))"

section \<open>Example environments\<close>

text \<open>
  Concrete collaborators on which the theorems below are exercised: a questionnaire
  \<^verbatim>\<open>{}\<close>, one stored image, a vision model that answers, a search that finds nothing,
  and chat models that answer at once, always ask for the tool, or ask once and then
  answer.
\<close>

definition ex_call :: tool_call where
  "ex_call =
     \<lparr> tc_name = ''product_lookup'',
       tc_args = JObject [(''query'', JString ''acne serum'')],
       tc_id = ''call_1'' \<rparr>"

definition ex_bad_call :: tool_call where
  "ex_bad_call =
     \<lparr> tc_name = ''product_lookup'',
       tc_args = JObject [(''n'', JNumber 2)],
       tc_id = ''call_2'' \<rparr>"

definition ex_env :: env where
  "ex_env =
     \<lparr> JSON_parse =
         (\<lambda>s. if s = ''{}'' then Inr (JObject []) else Inl (SyntaxError ''Unexpected token'')),
       JSON_stringify = (\<lambda>v indent. case v of JArray xs \<Rightarrow> ''[]'' | _ \<Rightarrow> ''{}''),
       readFileSync =
         (\<lambda>p. if p = ''public/images/face.jpg'' then Inr ''JFIF''
              else Inl (IOError ''ENOENT'')),
       toBase64 = (\<lambda>bytes. ''SkZJRg==''),
       vision_invoke = (\<lambda>ms. Inr ''oily skin, mild acne''),
       model_invoke = (\<lambda>prompt. Inr (''Use a gentle cleanser.'', [])),
       similaritySearchWithScore = (\<lambda>q n. Inr (JArray [])),
       Date_now = (\<lambda>k. 1700000000000),
       toISOString = (\<lambda>t. ''2023-11-14T22:13:20.000Z'') \<rparr>"

definition ex_env_other :: env where
  "ex_env_other =
     ex_env\<lparr> model_invoke := (\<lambda>prompt. Inr (''Try a salicylic acid serum.'', [])) \<rparr>"

definition ex_env_loop :: env where
  "ex_env_loop = ex_env\<lparr> model_invoke := (\<lambda>prompt. Inr ([], [ex_call])) \<rparr>"

fun is_ToolMessage :: "message \<Rightarrow> bool" where
  "is_ToolMessage (ToolMessage c n i) = True"
| "is_ToolMessage _ = False"

definition ex_env_bad_args :: env where
  "ex_env_bad_args =
     ex_env\<lparr> model_invoke :=
       (\<lambda>prompt. if is_ToolMessage (last prompt) then Inr (''Sorry, the lookup failed.'', [])
                else Inr ([], [ex_bad_call])) \<rparr>"

definition ex_env_search_down :: env where
  "ex_env_search_down =
     ex_env\<lparr> model_invoke :=
       (\<lambda>prompt. if is_ToolMessage (last prompt) then Inr (''Sorry, the lookup failed.'', [])
                else Inr ([], [ex_call])),
       similaritySearchWithScore := (\<lambda>q n. Inl (ToolExecutionError ''search unavailable'')) \<rparr>"

definition ex_env_vision_down :: env where
  "ex_env_vision_down =
     ex_env\<lparr> vision_invoke := (\<lambda>ms. Inl (ModelInvocationError ''overloaded'')) \<rparr>"

text \<open>
  A chat model that asks for the tool on its first seven turns and answers on the eighth
  (the prompt of turn \<open>t\<close> holds \<open>2 * t\<close> messages), and one that answers on the seventh.
\<close>

definition ex_env_eighth :: env where
  "ex_env_eighth =
     ex_env\<lparr> model_invoke :=
       (\<lambda>prompt. if length prompt < 16 then Inr ([], [ex_call])
                else Inr (''Use a gentle cleanser.'', [])) \<rparr>"

definition ex_env_seventh :: env where
  "ex_env_seventh =
     ex_env\<lparr> model_invoke :=
       (\<lambda>prompt. if length prompt < 14 then Inr ([], [ex_call])
                else Inr (''Use a gentle cleanser.'', [])) \<rparr>"






definition ex_world :: world where
  "ex_world = \<lparr> trace = [], store = Map.empty \<rparr>"

definition ex_closure :: closure where
  "ex_closure =
     \<lparr> cl_userResponses = JObject [], cl_imageAnalysis = None,
       cl_thread_id = ''t1'', cl_recursionLimit = 15 \<rparr>"

definition ex_input :: graph_state where
  "ex_input =
     \<lparr> messages = [HumanMessage (Text seed_request_text)], imageAnalysis = None,
       userResponses = JObject [] \<rparr>"

definition ex_tool_state :: graph_state where
  "ex_tool_state =
     \<lparr> messages = [HumanMessage (Text seed_request_text), AIMessage [] [ex_bad_call]],
       imageAnalysis = None, userResponses = JObject [] \<rparr>"


definition ex_questionnaire :: questionnaire where
  "ex_questionnaire =
     \<lparr> skinType = JUndefined, mainConcerns = JUndefined, breakoutFrequency = JUndefined,
       productSensitivity = JUndefined, skinCareRoutine = JUndefined \<rparr>"

section \<open>Auxiliary facts\<close>

subsection \<open>Traces\<close>


lemma trace_log_event: "trace (log_event ev w) = trace w @ [ev]"
  by (simp add: log_event_def)

lemma store_log_event: "store (log_event ev w) = store w"
  by (simp add: log_event_def)

lemma trace_put_checkpoint: "trace (put_checkpoint tid st w) = trace w"
  by (simp add: put_checkpoint_def)

lemma store_put_checkpoint: "store (put_checkpoint tid st w) = (store w)(tid \<mapsto> st)"
  by (simp add: put_checkpoint_def)

lemma prodLookupTool_func_world:
  "snd (prodLookupTool_func e inp w) =
     log_event (SearchInvoke (get_prop inp ''query'')
       (if get_prop inp ''n'' = JUndefined then JNumber 4 else get_prop inp ''n'')) w"
  by (simp add: prodLookupTool_func_def Let_def split: sum.splits)

lemma tool_invoke_world:
  "tool_invoke e prodLookupTool call w = (r, w') \<Longrightarrow>
     store w' = store w \<and> (\<exists>evs. trace w' = trace w @ evs \<and> list_all is_SearchInvoke evs)"
  by (auto simp: tool_invoke_def prodLookupTool_def prodLookupTool_func_def Let_def
      trace_log_event store_log_event split: sum.splits)

lemma run_call_world:
  "run_call e toolNode call w = (r, w') \<Longrightarrow>
     store w' = store w \<and> (\<exists>evs. trace w' = trace w @ evs \<and> list_all is_SearchInvoke evs)"
  by (auto simp: run_call_def toolNode_def ToolNode_def tools_def
      split: if_splits sum.splits prod.splits dest: tool_invoke_world)

lemma run_calls_world:
  "run_calls e toolNode cs w = (r, w') \<Longrightarrow>
     store w' = store w \<and> (\<exists>evs. trace w' = trace w @ evs \<and> list_all is_SearchInvoke evs)"
proof (induction cs arbitrary: w r w')
  case Nil
  then show ?case by simp
next
  case (Cons c cs)
  obtain r1 w1 where c1: "run_call e toolNode c w = (r1, w1)" by (cases "run_call e toolNode c w")
  from run_call_world[OF c1] obtain evs1 where
    s1: "store w1 = store w" and t1: "trace w1 = trace w @ evs1" and a1: "list_all is_SearchInvoke evs1"
    by blast
  show ?case
  proof (cases r1)
    case (Inl err)
    with Cons.prems c1 have "w' = w1" by simp
    with s1 t1 a1 show ?thesis by blast
  next
    case (Inr m)
    obtain r2 w2 where c2: "run_calls e toolNode cs w1 = (r2, w2)"
      by (cases "run_calls e toolNode cs w1")
    from Cons.IH[OF c2] obtain evs2 where
      s2: "store w2 = store w1" and t2: "trace w2 = trace w1 @ evs2" and a2: "list_all is_SearchInvoke evs2"
      by blast
    from Cons.prems c1 c2 Inr have "w' = w2" by (auto split: sum.splits)
    with s1 s2 t1 t2 a1 a2 show ?thesis
      by (intro conjI exI[of _ "evs1 @ evs2"]) auto
  qed
qed

lemma toolNode_run_world:
  "toolNode_run e toolNode st w = (r, w') \<Longrightarrow>
     store w' = store w \<and> (\<exists>evs. trace w' = trace w @ evs \<and> list_all is_SearchInvoke evs)"
  by (auto simp: toolNode_run_def split: if_splits message.splits dest: run_calls_world)

text \<open>With error handling on, the tool node never fails on an assistant message.\<close>

lemma run_call_total: "\<exists>m. fst (run_call e toolNode call w) = Inr m"
  by (auto simp: run_call_def toolNode_def ToolNode_def split: option.splits sum.splits prod.splits)

lemma run_calls_total: "\<exists>ms. fst (run_calls e toolNode cs w) = Inr ms \<and> length ms = length cs"
proof (induction cs arbitrary: w)
  case Nil
  then show ?case by simp
next
  case (Cons c cs)
  obtain r1 w1 where c1: "run_call e toolNode c w = (r1, w1)" by (cases "run_call e toolNode c w")
  with run_call_total[of e c w] obtain m where m: "r1 = Inr m" by auto
  obtain r2 w2 where c2: "run_calls e toolNode cs w1 = (r2, w2)"
    by (cases "run_calls e toolNode cs w1")
  with Cons.IH[of w1] obtain ms where ms: "r2 = Inr ms" "length ms = length cs" by auto
  show ?case using c1 c2 m ms by simp
qed

lemma callModel_world:
  "snd (callModel e cl st w) = log_event (ModelInvoke (formatMessages e cl st w)) w"
  by (simp add: callModel_def Let_def split: sum.splits prod.splits)

lemma callModel_result:
  "fst (callModel e cl st w) =
     (case model_invoke e (formatMessages e cl st w) of
        Inl err \<Rightarrow> Inl err | Inr (c, tcs) \<Rightarrow> Inr [AIMessage c tcs])"
  by (simp add: callModel_def Let_def split: sum.splits prod.splits)

lemma shouldContinue_not_Agent: "shouldContinue st \<noteq> Inr Agent"
  by (simp add: shouldContinue_def split: message.splits)


lemma search_not_model: "is_SearchInvoke ev \<Longrightarrow> \<not> is_ModelInvoke ev \<and> \<not> is_VisionInvoke ev"
  by (cases ev) simp_all

lemma search_only_counts:
  assumes "trace w' = trace w @ evs" and "list_all is_SearchInvoke evs"
  shows "agent_invocations w' = agent_invocations w"
    and "vision_invocations w' = vision_invocations w"
  using assms
  by (auto simp: agent_invocations_def vision_invocations_def list_all_iff filter_empty_conv
      dest: search_not_model)

subsection \<open>One step of the loop\<close>

lemma shouldContinue_after_agent:
  "shouldContinue (st\<lparr>messages := messages st @ [AIMessage c tcs]\<rparr>) =
     Inr (if tcs \<noteq> [] then Tools else End)"
  by (simp add: shouldContinue_def)

lemma loop_Agent_cases:
  assumes "pregel_loop e cl (Suc k) Agent st w = (r, w')"
  obtains (fail) err where
      "model_invoke e (formatMessages e cl st w) = Inl err"
      "r = Inl err"
      "w' = log_event (ModelInvoke (formatMessages e cl st w)) w"
  | (step) c tcs where
      "model_invoke e (formatMessages e cl st w) = Inr (c, tcs)"
      "pregel_loop e cl k (if tcs \<noteq> [] then Tools else End)
         (st\<lparr>messages := messages st @ [AIMessage c tcs]\<rparr>)
         (put_checkpoint (cl_thread_id cl) (st\<lparr>messages := messages st @ [AIMessage c tcs]\<rparr>)
            (log_event (ModelInvoke (formatMessages e cl st w)) w)) = (r, w')"
proof (cases "model_invoke e (formatMessages e cl st w)")
  case (Inl err)
  with assms have "r = Inl err" "w' = log_event (ModelInvoke (formatMessages e cl st w)) w"
    by (simp_all add: callModel_def Let_def)
  with Inl show ?thesis by (rule fail)
next
  case (Inr a)
  obtain c tcs where a: "a = (c, tcs)" by (cases a)
  from assms Inr a have
    "pregel_loop e cl k (if tcs \<noteq> [] then Tools else End)
         (st\<lparr>messages := messages st @ [AIMessage c tcs]\<rparr>)
         (put_checkpoint (cl_thread_id cl) (st\<lparr>messages := messages st @ [AIMessage c tcs]\<rparr>)
            (log_event (ModelInvoke (formatMessages e cl st w)) w)) = (r, w')"
    by (simp add: callModel_def Let_def write_messages_def messages_reducer_def
        shouldContinue_after_agent)
  with Inr a show ?thesis by (auto intro: step)
qed

lemma loop_Tools_cases:
  assumes "pregel_loop e cl (Suc k) Tools st w = (r, w')"
  obtains (fail) err where
      "toolNode_run e toolNode st w = (Inl err, w')" "r = Inl err"
  | (step) upd w1 where
      "toolNode_run e toolNode st w = (Inr upd, w1)"
      "pregel_loop e cl k Agent (st\<lparr>messages := messages st @ upd\<rparr>)
         (put_checkpoint (cl_thread_id cl) (st\<lparr>messages := messages st @ upd\<rparr>) w1) = (r, w')"
proof -
  obtain r1 w1 where t: "toolNode_run e toolNode st w = (r1, w1)"
    by (cases "toolNode_run e toolNode st w")
  show ?thesis
  proof (cases r1)
    case (Inl err)
    with assms t have "r = Inl err" "w1 = w'" by simp_all
    with t Inl show ?thesis by (auto intro: fail)
  next
    case (Inr upd)
    with assms t have
      "pregel_loop e cl k Agent (st\<lparr>messages := messages st @ upd\<rparr>)
         (put_checkpoint (cl_thread_id cl) (st\<lparr>messages := messages st @ upd\<rparr>) w1) = (r, w')"
      by (simp add: write_messages_def messages_reducer_def Let_def)
    with t Inr show ?thesis by (auto intro: step)
  qed
qed

lemma loop_zero:
  assumes "pregel_loop e cl 0 nd st w = (r, w')"
  shows "w' = w \<and> r = Inl (GraphRecursionError (cl_recursionLimit cl))"
  using assms by simp

lemma loop_End:
  "pregel_loop e cl k End st w =
     (if k = 0 then (Inl (GraphRecursionError (cl_recursionLimit cl)), w) else (Inr st, w))"
  by (cases k) simp_all

subsection \<open>Invariants of a run\<close>

lemma loop_agent_bound:
  "agent_invocations (snd (pregel_loop e cl k nd st w))
     \<le> agent_invocations w + (case nd of Agent \<Rightarrow> (k + 1) div 2 | Tools \<Rightarrow> k div 2 | End \<Rightarrow> 0)"
proof (induction k arbitrary: nd st w)
  case 0
  then show ?case by (cases nd) simp_all
next
  case (Suc k)
  obtain r w' where run: "pregel_loop e cl (Suc k) nd st w = (r, w')"
    by (cases "pregel_loop e cl (Suc k) nd st w")
  show ?case
  proof (cases nd)
    case End
    then show ?thesis by simp
  next
    case Agent
    from run[unfolded Agent] show ?thesis
    proof (cases rule: loop_Agent_cases)
      case (fail err)
      with run Agent show ?thesis
        by (simp add: agent_invocations_def trace_log_event)
    next
      case (step c tcs)
      let ?st = "st\<lparr>messages := messages st @ [AIMessage c tcs]\<rparr>"
      let ?w = "put_checkpoint (cl_thread_id cl) ?st (log_event (ModelInvoke (formatMessages e cl st w)) w)"
      have w1: "agent_invocations ?w = agent_invocations w + 1"
        by (simp add: agent_invocations_def trace_put_checkpoint trace_log_event)
      from Suc.IH[of "if tcs \<noteq> [] then Tools else End" ?st ?w] step(2)
      have "agent_invocations w' \<le> agent_invocations ?w + k div 2"
        by (auto split: if_splits)
      with w1 run Agent show ?thesis by simp
    qed
  next
    case Tools
    from run[unfolded Tools] show ?thesis
    proof (cases rule: loop_Tools_cases)
      case (fail err)
      from toolNode_run_world[OF fail(1)] have "agent_invocations w' = agent_invocations w"
        by (auto dest: search_only_counts(1))
      with run Tools show ?thesis by simp
    next
      case (step upd w1)
      let ?st = "st\<lparr>messages := messages st @ upd\<rparr>"
      let ?w = "put_checkpoint (cl_thread_id cl) ?st w1"
      from toolNode_run_world[OF step(1)] have "agent_invocations w1 = agent_invocations w"
        by (auto dest: search_only_counts(1))
      then have w1: "agent_invocations ?w = agent_invocations w"
        by (simp add: agent_invocations_def trace_put_checkpoint)
      from Suc.IH[of Agent ?st ?w] step(2)
      have "agent_invocations w' \<le> agent_invocations ?w + (k + 1) div 2" by simp
      with w1 run Tools show ?thesis by simp
    qed
  qed
qed

lemma toolNode_run_total:
  assumes "messages st \<noteq> []" and "last (messages st) = AIMessage c tcs"
  shows "\<exists>ms w1. toolNode_run e toolNode st w = (Inr ms, w1) \<and> length ms = length tcs"
proof -
  obtain r w1 where rc: "run_calls e toolNode tcs w = (r, w1)"
    by (cases "run_calls e toolNode tcs w")
  with run_calls_total[of e tcs w] obtain ms where "r = Inr ms" "length ms = length tcs" by auto
  with rc assms show ?thesis by (simp add: toolNode_run_def)
qed

lemma loop_success_last:
  assumes "pregel_loop e cl k nd st w = (Inr st', w')" and "nd \<noteq> End"
  shows "\<exists>p c. trace w' \<noteq> [] \<and> last (trace w') = ModelInvoke p \<and> model_invoke e p = Inr (c, [])
           \<and> messages st' \<noteq> [] \<and> last (messages st') = AIMessage c []"
  using assms
proof (induction k arbitrary: nd st w)
  case 0
  then show ?case by (cases nd) simp_all
next
  case (Suc k)
  show ?case
  proof (cases nd)
    case End
    with Suc.prems show ?thesis by simp
  next
    case Agent
    from Suc.prems(1)[unfolded Agent] show ?thesis
    proof (cases rule: loop_Agent_cases)
      case (fail err)
      then show ?thesis by simp
    next
      case (step c tcs)
      show ?thesis
      proof (cases "tcs = []")
        case True
        with step show ?thesis
          by (auto simp: loop_End trace_put_checkpoint trace_log_event split: if_splits)
      next
        case False
        with step(2) Suc.IH[of Tools] show ?thesis by simp
      qed
    qed
  next
    case Tools
    from Suc.prems(1)[unfolded Tools] show ?thesis
    proof (cases rule: loop_Tools_cases)
      case (fail err)
      then show ?thesis by simp
    next
      case (step upd w1)
      with Suc.IH[of Agent] show ?thesis by simp
    qed
  qed
qed

lemma loop_always_tools:
  assumes always: "\<And>p. \<exists>c tcs. model_invoke e p = Inr (c, tcs) \<and> tcs \<noteq> []"
    and start: "nd = Agent \<or> (nd = Tools \<and> messages st \<noteq> [] \<and> (\<exists>c tcs. last (messages st) = AIMessage c tcs))"
  shows "\<exists>w'. pregel_loop e cl k nd st w = (Inl (GraphRecursionError (cl_recursionLimit cl)), w')
           \<and> agent_invocations w' =
               agent_invocations w + (case nd of Agent \<Rightarrow> (k + 1) div 2 | Tools \<Rightarrow> k div 2 | End \<Rightarrow> 0)"
  using start
proof (induction k arbitrary: nd st w)
  case 0
  then show ?case by auto
next
  case (Suc k)
  from Suc.prems show ?case
  proof
    assume nd: "nd = Agent"
    let ?P = "formatMessages e cl st w"
    from always[of ?P] obtain c tcs where m: "model_invoke e ?P = Inr (c, tcs)" and ne: "tcs \<noteq> []"
      by blast
    let ?st = "st\<lparr>messages := messages st @ [AIMessage c tcs]\<rparr>"
    let ?w = "put_checkpoint (cl_thread_id cl) ?st (log_event (ModelInvoke ?P) w)"
    have unfold: "pregel_loop e cl (Suc k) Agent st w = pregel_loop e cl k Tools ?st ?w"
      using m ne
      by (simp add: callModel_def Let_def write_messages_def messages_reducer_def
          shouldContinue_after_agent)
    have cnt: "agent_invocations ?w = agent_invocations w + 1"
      by (simp add: agent_invocations_def trace_put_checkpoint trace_log_event)
    from Suc.IH[of Tools ?st ?w] obtain w' where
      "pregel_loop e cl k Tools ?st ?w = (Inl (GraphRecursionError (cl_recursionLimit cl)), w')"
      "agent_invocations w' = agent_invocations ?w + k div 2"
      by auto
    with unfold cnt nd show ?thesis by simp
  next
    assume "nd = Tools \<and> messages st \<noteq> [] \<and> (\<exists>c tcs. last (messages st) = AIMessage c tcs)"
    then obtain c tcs where nd: "nd = Tools" and ne: "messages st \<noteq> []"
      and l: "last (messages st) = AIMessage c tcs" by blast
    from toolNode_run_total[OF ne l, of e w] obtain ms w1 where
      t: "toolNode_run e toolNode st w = (Inr ms, w1)" by blast
    let ?st = "st\<lparr>messages := messages st @ ms\<rparr>"
    let ?w = "put_checkpoint (cl_thread_id cl) ?st w1"
    have unfold: "pregel_loop e cl (Suc k) Tools st w = pregel_loop e cl k Agent ?st ?w"
      using t by (simp add: write_messages_def messages_reducer_def Let_def)
    from toolNode_run_world[OF t] have "agent_invocations w1 = agent_invocations w"
      by (auto dest: search_only_counts(1))
    then have cnt: "agent_invocations ?w = agent_invocations w"
      by (simp add: agent_invocations_def trace_put_checkpoint)
    from Suc.IH[of Agent ?st ?w] obtain w' where
      "pregel_loop e cl k Agent ?st ?w = (Inl (GraphRecursionError (cl_recursionLimit cl)), w')"
      "agent_invocations w' = agent_invocations ?w + (k + 1) div 2"
      by auto
    with unfold cnt nd show ?thesis by simp
  qed
qed

lemma loop_store:
  assumes "pregel_loop e cl k nd st w = (r, w')"
    and "store w (cl_thread_id cl) = Some st"
  shows "\<exists>s. store w' (cl_thread_id cl) = Some s \<and> prefix (messages st) (messages s)
           \<and> (\<forall>st'. r = Inr st' \<longrightarrow> s = st')"
  using assms
proof (induction k arbitrary: nd st w)
  case 0
  then show ?case by (cases nd) auto
next
  case (Suc k)
  show ?case
  proof (cases nd)
    case End
    with Suc.prems show ?thesis by auto
  next
    case Agent
    from Suc.prems(1)[unfolded Agent] show ?thesis
    proof (cases rule: loop_Agent_cases)
      case (fail err)
      with Suc.prems(2) show ?thesis by (simp add: store_log_event)
    next
      case (step c tcs)
      from Suc.IH[OF step(2)] obtain s where
        "store w' (cl_thread_id cl) = Some s"
        "prefix (messages st @ [AIMessage c tcs]) (messages s)"
        "\<forall>st'. r = Inr st' \<longrightarrow> s = st'"
        by (auto simp: store_put_checkpoint)
      then show ?thesis by (auto dest: append_prefixD)
    qed
  next
    case Tools
    from Suc.prems(1)[unfolded Tools] show ?thesis
    proof (cases rule: loop_Tools_cases)
      case (fail err)
      with toolNode_run_world[OF fail(1)] Suc.prems(2) show ?thesis by simp
    next
      case (step upd w1)
      from Suc.IH[OF step(2)] obtain s where
        "store w' (cl_thread_id cl) = Some s"
        "prefix (messages st @ upd) (messages s)"
        "\<forall>st'. r = Inr st' \<longrightarrow> s = st'"
        by (auto simp: store_put_checkpoint)
      then show ?thesis by (auto dest: append_prefixD)
    qed
  qed
qed

lemma loop_prefix:
  assumes "pregel_loop e cl k nd st w = (Inr st', w')"
  shows "prefix (messages st) (messages st')"
  using assms
proof (induction k arbitrary: nd st w)
  case 0
  then show ?case by (cases nd) auto
next
  case (Suc k)
  show ?case
  proof (cases nd)
    case End
    with Suc.prems show ?thesis by auto
  next
    case Agent
    from Suc.prems(1)[unfolded Agent] show ?thesis
    proof (cases rule: loop_Agent_cases)
      case (fail err)
      then show ?thesis by simp
    next
      case (step c tcs)
      from Suc.IH[OF step(2)] show ?thesis by (auto dest: append_prefixD)
    qed
  next
    case Tools
    from Suc.prems(1)[unfolded Tools] show ?thesis
    proof (cases rule: loop_Tools_cases)
      case (fail err)
      then show ?thesis by simp
    next
      case (step upd w1)
      from Suc.IH[OF step(2)] show ?thesis by (auto dest: append_prefixD)
    qed
  qed
qed

lemma loop_events:
  assumes "pregel_loop e cl k nd st w = (r, w')"
  shows "\<exists>evs. trace w' = trace w @ evs \<and>
           list_all (\<lambda>ev. is_SearchInvoke ev \<or>
                      (\<exists>st0 w0. ev = ModelInvoke (formatMessages e cl st0 w0))) evs"
  using assms
proof (induction k arbitrary: nd st w)
  case 0
  then show ?case by (cases nd) auto
next
  case (Suc k)
  let ?ok = "\<lambda>ev. is_SearchInvoke ev \<or> (\<exists>st0 w0. ev = ModelInvoke (formatMessages e cl st0 w0))"
  show ?case
  proof (cases nd)
    case End
    with Suc.prems show ?thesis by auto
  next
    case Agent
    from Suc.prems(1)[unfolded Agent] show ?thesis
    proof (cases rule: loop_Agent_cases)
      case (fail err)
      then show ?thesis by (auto simp: trace_log_event)
    next
      case (step c tcs)
      from Suc.IH[OF step(2)] obtain evs where
        "trace w' = (trace w @ [ModelInvoke (formatMessages e cl st w)]) @ evs" "list_all ?ok evs"
        by (auto simp: trace_put_checkpoint trace_log_event)
      then show ?thesis
        by (intro exI[of _ "ModelInvoke (formatMessages e cl st w) # evs"]) auto
    qed
  next
    case Tools
    from Suc.prems(1)[unfolded Tools] show ?thesis
    proof (cases rule: loop_Tools_cases)
      case (fail err)
      from toolNode_run_world[OF fail(1)] show ?thesis
        by (auto simp: list_all_iff)
    next
      case (step upd w1)
      from toolNode_run_world[OF step(1)] obtain evs1 where
        e1: "trace w1 = trace w @ evs1" "list_all is_SearchInvoke evs1" by blast
      from Suc.IH[OF step(2)] obtain evs2 where
        e2: "trace w' = trace w1 @ evs2" "list_all ?ok evs2"
        by (auto simp: trace_put_checkpoint)
      from e1 e2 show ?thesis
        by (intro exI[of _ "evs1 @ evs2"]) (auto simp: list_all_iff)
    qed
  qed
qed

lemma loop_vision:
  assumes "pregel_loop e cl k nd st w = (r, w')"
  shows "vision_invocations w' = vision_invocations w"
proof -
  from loop_events[OF assms] obtain evs where
    t: "trace w' = trace w @ evs"
    and ok: "list_all (\<lambda>ev. is_SearchInvoke ev \<or>
                      (\<exists>st0 w0. ev = ModelInvoke (formatMessages e cl st0 w0))) evs"
    by blast
  from ok have "filter is_VisionInvoke evs = []"
    by (auto simp: list_all_iff filter_empty_conv dest: search_not_model)
  with t show ?thesis by (simp add: vision_invocations_def)
qed

lemma image_branch_None: "image_branch e None w = (Inr None, w)"
  by (simp add: image_branch_def)

lemma image_branch_Some:
  assumes "p \<noteq> []" and "readFileSync e p = Inr file"
  shows "image_branch e (Some p) w =
           (case vision_invoke e (vision_messages e file) of
              Inl err \<Rightarrow> Inl err | Inr response \<Rightarrow> Inr (Some response),
            log_event (VisionInvoke (vision_messages e file)) w)"
  using assms by (simp add: image_branch_def Let_def split: sum.splits)

lemma image_branch_world:
  assumes "image_branch e image_path w = (r, w1)"
  shows "store w1 = store w \<and> agent_invocations w1 = agent_invocations w \<and>
         (w1 = w \<or> (\<exists>ms. w1 = log_event (VisionInvoke ms) w))"
  using assms
  by (auto simp: image_branch_def Let_def agent_invocations_def trace_log_event store_log_event
      split: option.splits if_splits sum.splits)

text \<open>The body of \<open>callAgent\<close> once the query has parsed and the image branch has run.\<close>

lemma callAgent_unfold:
  assumes "JSON_parse e query = Inr ur" and "image_branch e image_path w = (Inr ia, w1)"
  shows "callAgent e query thread_id image_path w =
     (case app_invoke e
             \<lparr> cl_userResponses = ur, cl_imageAnalysis = ia,
               cl_thread_id = thread_id, cl_recursionLimit = 15 \<rparr>
             \<lparr> messages = [HumanMessage (Text seed_request_text)],
               imageAnalysis = ia, userResponses = ur \<rparr> w1 of
        (Inl err, w2) \<Rightarrow> (Inl err, w2)
      | (Inr finalState, w2) \<Rightarrow>
          (if messages finalState = []
           then (Inl (TypeError ''Cannot read properties of undefined''), w2)
           else (Inr (message_content (last (messages finalState))), w2)))"
  using assms by (simp add: callAgent_def)

lemma callAgent_world:
  "snd (callAgent e query thread_id image_path w) =
     (case JSON_parse e query of
        Inl err \<Rightarrow> w
      | Inr ur \<Rightarrow>
          (case image_branch e image_path w of
             (Inl err, w1) \<Rightarrow> w1
           | (Inr ia, w1) \<Rightarrow>
               snd (app_invoke e
                      \<lparr> cl_userResponses = ur, cl_imageAnalysis = ia,
                        cl_thread_id = thread_id, cl_recursionLimit = 15 \<rparr>
                      \<lparr> messages = [HumanMessage (Text seed_request_text)],
                        imageAnalysis = ia, userResponses = ur \<rparr> w1)))"
  by (simp add: callAgent_def split: sum.splits prod.splits)

lemma app_invoke_unfold:
  "app_invoke e cl inp w =
     pregel_loop e cl (cl_recursionLimit cl) Agent
       (write_input (load_checkpoint w (cl_thread_id cl)) inp)
       (put_checkpoint (cl_thread_id cl) (write_input (load_checkpoint w (cl_thread_id cl)) inp) w)"
  by (simp add: app_invoke_def Let_def)

lemma messages_write_input:
  "messages (write_input saved inp) = messages saved @ messages inp"
  by (simp add: write_input_def messages_reducer_def)

subsection \<open>Evaluating concrete runs\<close>

lemma pregel_loop_Agent_numeral:
  "pregel_loop e cl (numeral n) Agent st w =
     (case callModel e cl st w of
        (Inl err, w') \<Rightarrow> (Inl err, w')
      | (Inr upd, w') \<Rightarrow>
          (case write_messages cl st upd w' of
             (st', w'') \<Rightarrow>
               (case shouldContinue st' of
                  Inl err \<Rightarrow> (Inl err, w'')
                | Inr nxt \<Rightarrow> pregel_loop e cl (pred_numeral n) nxt st' w'')))"
  by (simp only: numeral_eq_Suc pregel_loop.simps)

lemma pregel_loop_Tools_numeral:
  "pregel_loop e cl (numeral n) Tools st w =
     (case toolNode_run e toolNode st w of
        (Inl err, w') \<Rightarrow> (Inl err, w')
      | (Inr upd, w') \<Rightarrow>
          (case write_messages cl st upd w' of
             (st', w'') \<Rightarrow> pregel_loop e cl (pred_numeral n) Agent st' w''))"
  by (simp only: numeral_eq_Suc pregel_loop.simps)

lemma pregel_loop_End_numeral:
  "pregel_loop e cl (numeral n) End st w = (Inr st, w)"
  by (simp only: numeral_eq_Suc pregel_loop.simps)

lemmas run_simps =
  callAgent_def image_branch_def app_invoke_def load_checkpoint_def write_input_def
  empty_channels_def callModel_def write_messages_def messages_reducer_def
  imageAnalysis_reducer_def userResponses_reducer_def shouldContinue_def put_checkpoint_def
  log_event_def toolNode_run_def toolNode_def ToolNode_def tools_def run_call_def
  tool_invoke_def prodLookupTool_def prodLookupTool_schema_def prodLookupTool_func_def
  tool_error_message_def Let_def
  pregel_loop_Agent_numeral pregel_loop_Tools_numeral pregel_loop_End_numeral

lemmas ex_simps =
  ex_env_def ex_env_loop_def ex_env_bad_args_def ex_env_search_down_def ex_env_vision_down_def
  ex_env_eighth_def ex_env_seventh_def ex_env_other_def
  ex_world_def ex_call_def ex_bad_call_def ex_questionnaire_def

lemma ex_answer_run:
  "callAgent ex_env ''{}'' ''t1'' None ex_world =
     (Inr (Text ''Use a gentle cleanser.''), snd (callAgent ex_env ''{}'' ''t1'' None ex_world))"
  by (simp add: run_simps ex_simps)

lemma app_invoke_agent_bound:
  "agent_invocations (snd (app_invoke e cl inp w)) \<le> agent_invocations w + (cl_recursionLimit cl + 1) div 2"
proof -
  let ?st = "write_input (load_checkpoint w (cl_thread_id cl)) inp"
  let ?w = "put_checkpoint (cl_thread_id cl) ?st w"
  have "agent_invocations ?w = agent_invocations w"
    by (simp add: agent_invocations_def trace_put_checkpoint)
  with loop_agent_bound[of e cl "cl_recursionLimit cl" Agent ?st ?w] show ?thesis
    by (simp add: app_invoke_unfold)
qed

lemma app_invoke_always_tools:
  assumes "\<And>p. \<exists>c tcs. model_invoke e p = Inr (c, tcs) \<and> tcs \<noteq> []"
  shows "\<exists>w'. app_invoke e cl inp w = (Inl (GraphRecursionError (cl_recursionLimit cl)), w')
           \<and> agent_invocations w' = agent_invocations w + (cl_recursionLimit cl + 1) div 2"
proof -
  let ?st = "write_input (load_checkpoint w (cl_thread_id cl)) inp"
  let ?w = "put_checkpoint (cl_thread_id cl) ?st w"
  have "agent_invocations ?w = agent_invocations w"
    by (simp add: agent_invocations_def trace_put_checkpoint)
  with loop_always_tools[of e Agent ?st cl "cl_recursionLimit cl" ?w, OF assms] show ?thesis
    by (simp add: app_invoke_unfold)
qed

lemma callAgent_agent_bound:
  "agent_invocations (snd (callAgent e query thread_id image_path w)) \<le> agent_invocations w + 8"
proof (cases "JSON_parse e query")
  case (Inl err)
  then show ?thesis by (simp add: callAgent_def)
next
  case (Inr ur)
  obtain ri w1 where ib: "image_branch e image_path w = (ri, w1)"
    by (cases "image_branch e image_path w")
  from image_branch_world[OF ib] have w1: "agent_invocations w1 = agent_invocations w" by simp
  show ?thesis
  proof (cases ri)
    case (Inl err)
    with Inr ib w1 show ?thesis by (simp add: callAgent_world)
  next
    case ia: (Inr ia)
    let ?cl = "\<lparr> cl_userResponses = ur, cl_imageAnalysis = ia,
                 cl_thread_id = thread_id, cl_recursionLimit = 15 \<rparr>"
    from app_invoke_agent_bound[of e ?cl _ w1] w1 Inr ib ia show ?thesis
      by (simp add: callAgent_world)
  qed
qed

lemma callAgent_always_tools:
  assumes always: "\<And>p. \<exists>c tcs. model_invoke e p = Inr (c, tcs) \<and> tcs \<noteq> []"
    and ur: "JSON_parse e query = Inr ur"
    and ib: "image_branch e image_path w = (Inr ia, w1)"
  shows "fst (callAgent e query thread_id image_path w) = Inl (GraphRecursionError 15)
       \<and> agent_invocations (snd (callAgent e query thread_id image_path w)) = agent_invocations w + 8"
proof -
  let ?cl = "\<lparr> cl_userResponses = ur, cl_imageAnalysis = ia,
               cl_thread_id = thread_id, cl_recursionLimit = 15 \<rparr>"
  let ?inp = "\<lparr> messages = [HumanMessage (Text seed_request_text)],
               imageAnalysis = ia, userResponses = ur \<rparr>"
  from app_invoke_always_tools[of e ?cl ?inp w1, OF always] obtain w' where
    a: "app_invoke e ?cl ?inp w1 = (Inl (GraphRecursionError 15), w')"
    and c: "agent_invocations w' = agent_invocations w1 + 8"
    by auto
  from image_branch_world[OF ib] have "agent_invocations w1 = agent_invocations w" by simp
  with a c callAgent_unfold[OF ur ib, of thread_id] show ?thesis by simp
qed

lemma ex_env_loop_always:
  "\<exists>c tcs. model_invoke ex_env_loop p = Inr (c, tcs) \<and> tcs \<noteq> []"
  by (simp add: ex_env_loop_def ex_env_def)

lemma ex_env_loop_parse: "JSON_parse ex_env_loop ''{}'' = Inr (JObject [])"
  by (simp add: ex_env_loop_def ex_env_def)

lemma ex_agent_invocations: "agent_invocations ex_world = 0"
  by (simp add: agent_invocations_def ex_world_def)

lemma ex_env_loop_image:
  "image_branch ex_env_loop (Some ''public/images/face.jpg'') ex_world =
     (Inr (Some ''oily skin, mild acne''),
      log_event (VisionInvoke (vision_messages ex_env_loop ''JFIF'')) ex_world)"
  by (simp add: image_branch_def ex_env_loop_def ex_env_def Let_def)

lemma ex_loop_run:
  "pregel_loop ex_env \<lparr> cl_userResponses = JObject [], cl_imageAnalysis = None,
                         cl_thread_id = ''t1'', cl_recursionLimit = 15 \<rparr> (Suc (Suc 0)) Agent
       \<lparr> messages = [HumanMessage (Text seed_request_text)], imageAnalysis = None,
         userResponses = JObject [] \<rparr> ex_world
     = (Inr \<lparr> messages = [HumanMessage (Text seed_request_text),
                          AIMessage ''Use a gentle cleanser.'' []],
              imageAnalysis = None, userResponses = JObject [] \<rparr>,
        put_checkpoint ''t1''
          \<lparr> messages = [HumanMessage (Text seed_request_text),
                        AIMessage ''Use a gentle cleanser.'' []],
            imageAnalysis = None, userResponses = JObject [] \<rparr>
          (log_event (ModelInvoke (formatMessages ex_env
              \<lparr> cl_userResponses = JObject [], cl_imageAnalysis = None,
                cl_thread_id = ''t1'', cl_recursionLimit = 15 \<rparr>
              \<lparr> messages = [HumanMessage (Text seed_request_text)], imageAnalysis = None,
                userResponses = JObject [] \<rparr> ex_world)) ex_world))"
  by (simp add: callModel_def Let_def write_messages_def messages_reducer_def
      shouldContinue_def ex_env_def)

lemma app_invoke_store:
  assumes "app_invoke e cl inp w = (r, w')"
  shows "\<exists>s. store w' (cl_thread_id cl) = Some s
           \<and> prefix (messages (load_checkpoint w (cl_thread_id cl)) @ messages inp) (messages s)
           \<and> (\<forall>st'. r = Inr st' \<longrightarrow> s = st')"
proof -
  let ?st = "write_input (load_checkpoint w (cl_thread_id cl)) inp"
  let ?w = "put_checkpoint (cl_thread_id cl) ?st w"
  from assms have "pregel_loop e cl (cl_recursionLimit cl) Agent ?st ?w = (r, w')"
    by (simp add: app_invoke_unfold)
  from loop_store[OF this] show ?thesis
    by (simp add: store_put_checkpoint messages_write_input)
qed

lemma run_call_handles_error:
  assumes "tool_invoke e prodLookupTool call w = (Inl err, w1)"
    and "tc_name call = ''product_lookup''"
  shows "run_call e toolNode call w = (Inr (tool_error_message err call), w1)"
  using assms
  by (simp add: run_call_def toolNode_def ToolNode_def tools_def prodLookupTool_def)

lemma loop_Tools_continues:
  assumes "messages st \<noteq> []" and "last (messages st) = AIMessage c tcs"
  shows "\<exists>ms w2. toolNode_run e toolNode st w = (Inr ms, w2) \<and> length ms = length tcs
           \<and> pregel_loop e cl (Suc k) Tools st w =
               pregel_loop e cl k Agent (st\<lparr>messages := messages st @ ms\<rparr>)
                 (put_checkpoint (cl_thread_id cl) (st\<lparr>messages := messages st @ ms\<rparr>) w2)"
proof -
  from toolNode_run_total[OF assms, of e w] obtain ms w2 where
    t: "toolNode_run e toolNode st w = (Inr ms, w2)" "length ms = length tcs" by blast
  then show ?thesis
    by (simp add: write_messages_def messages_reducer_def Let_def)
qed

lemma formatMessages_history: "tl (formatMessages e cl st w) = messages st"
  by (simp add: formatMessages_def)

lemma post_chat_thread_hides_error:
  assumes "fst (callAgent e message thread_id None w) = Inl err"
  shows "fst (post_chat_thread e thread_id message w) = internal_server_error"
  using assms by (auto simp: post_chat_thread_def split: prod.splits sum.splits)

lemma post_chat_hides_error:
  assumes "fst (callAgent e (JSON_stringify e (post_chat_userResponses req_body) None)
                  (post_chat_threadId e w) (post_chat_path file_path) w) = Inl err"
  shows "fst (post_chat e req_body file_path w) = internal_server_error"
  using assms by (auto simp: post_chat_def Let_def split: prod.splits sum.splits)

lemma ex_bad_args_parse: "JSON_parse ex_env_bad_args ''{}'' = Inr (JObject [])"
  by (simp add: ex_env_bad_args_def ex_env_def)

lemma ex_bad_call_rejected:
  "tool_invoke ex_env_bad_args prodLookupTool ex_bad_call ex_world = (Inl ToolInputParsingException, ex_world)"
  by (simp add: tool_invoke_def prodLookupTool_def prodLookupTool_schema_def ex_bad_call_def)

lemma ex_call_fails:
  "tool_invoke ex_env_search_down prodLookupTool ex_call ex_world =
     (Inl (ToolExecutionError ''search unavailable''),
      log_event (SearchInvoke (JString ''acne serum'') (JNumber 10)) ex_world)"
  by (simp add: tool_invoke_def prodLookupTool_def prodLookupTool_schema_def ex_call_def
      prodLookupTool_func_def Let_def ex_env_search_down_def ex_env_def)

lemma formatMessages_put_checkpoint:
  "formatMessages e cl st (put_checkpoint tid s w) = formatMessages e cl st w"
  by (simp add: formatMessages_def trace_put_checkpoint)

lemma loop_first_event:
  assumes "pregel_loop e cl (Suc k) Agent st w = (r, w')"
  shows "\<exists>evs. trace w' = trace w @ ModelInvoke (formatMessages e cl st w) # evs"
  using assms
proof (cases rule: loop_Agent_cases)
  case (fail err)
  then show ?thesis by (simp add: trace_log_event)
next
  case (step c tcs)
  from loop_events[OF step(2)] show ?thesis
    by (auto simp: trace_put_checkpoint trace_log_event)
qed



lemma callAgent_no_image:
  assumes "JSON_parse e message = Inr ur"
  shows "callAgent e message thread_id None w =
     (case app_invoke e
             \<lparr> cl_userResponses = ur, cl_imageAnalysis = None,
               cl_thread_id = thread_id, cl_recursionLimit = 15 \<rparr>
             \<lparr> messages = [HumanMessage (Text seed_request_text)],
               imageAnalysis = None, userResponses = ur \<rparr> w of
        (Inl err, w2) \<Rightarrow> (Inl err, w2)
      | (Inr finalState, w2) \<Rightarrow>
          (if messages finalState = []
           then (Inl (TypeError ''Cannot read properties of undefined''), w2)
           else (Inr (message_content (last (messages finalState))), w2)))"
  by (rule callAgent_unfold[OF assms image_branch_None])

lemma loop_answer:
  assumes "model_invoke e (formatMessages e cl st w) = Inr (c, [])"
  shows "pregel_loop e cl (Suc (Suc k)) Agent st w =
        (Inr (st\<lparr>messages := messages st @ [AIMessage c []]\<rparr>),
         put_checkpoint (cl_thread_id cl) (st\<lparr>messages := messages st @ [AIMessage c []]\<rparr>)
           (log_event (ModelInvoke (formatMessages e cl st w)) w))"
  using assms
  by (simp add: callModel_def Let_def write_messages_def messages_reducer_def
      shouldContinue_after_agent)

lemma vision_log_event:
  "vision_invocations (log_event (VisionInvoke ms) w) = vision_invocations w + 1"
  by (simp add: vision_invocations_def trace_log_event)

lemma agent_log_vision:
  "agent_invocations (log_event (VisionInvoke ms) w) = agent_invocations w"
  by (simp add: agent_invocations_def trace_log_event)

lemma app_invoke_vision:
  "vision_invocations (snd (app_invoke e cl inp w)) = vision_invocations w"
proof -
  let ?st = "write_input (load_checkpoint w (cl_thread_id cl)) inp"
  let ?w = "put_checkpoint (cl_thread_id cl) ?st w"
  obtain r w' where rw: "pregel_loop e cl (cl_recursionLimit cl) Agent ?st ?w = (r, w')"
    by (cases "pregel_loop e cl (cl_recursionLimit cl) Agent ?st ?w")
  from loop_vision[OF rw] have "vision_invocations w' = vision_invocations w"
    by (simp add: vision_invocations_def trace_put_checkpoint)
  with rw show ?thesis by (simp add: app_invoke_unfold)
qed

lemma callAgent_with_image:
  assumes ur: "JSON_parse e query = Inr ur" and p: "p \<noteq> []" and f: "readFileSync e p = Inr file"
  shows "vision_invocations (snd (callAgent e query thread_id (Some p) w)) = vision_invocations w + 1"
    and "vision_invoke e (vision_messages e file) = Inl err \<Longrightarrow>
           callAgent e query thread_id (Some p) w
             = (Inl err, log_event (VisionInvoke (vision_messages e file)) w)"
proof -
  note ib = image_branch_Some[OF p f, of w]
  show "vision_invocations (snd (callAgent e query thread_id (Some p) w)) = vision_invocations w + 1"
    using ur ib
    by (cases "vision_invoke e (vision_messages e file)")
      (simp_all add: callAgent_world app_invoke_vision vision_log_event)
  show "callAgent e query thread_id (Some p) w
             = (Inl err, log_event (VisionInvoke (vision_messages e file)) w)"
    if "vision_invoke e (vision_messages e file) = Inl err"
    using that ur ib by (simp add: callAgent_def)
qed

lemma post_chat_world:
  "snd (post_chat e req_body file_path w) =
     snd (callAgent e (JSON_stringify e (post_chat_userResponses req_body) None)
            (post_chat_threadId e w) (post_chat_path file_path) w)"
  by (simp add: post_chat_def Let_def split: prod.splits sum.splits)

lemma post_chat_path_Some: "p \<noteq> [] \<Longrightarrow> post_chat_path (Some p) = Some p"
  by (simp add: post_chat_path_def)

lemma sublist_system_prompt:
  "sublist ur (system_prompt ur ia tn t)" "sublist ia (system_prompt ur ia tn t)"
proof -
  show "sublist ur (system_prompt ur ia tn t)"
    unfolding system_prompt_def by (rule sublist_appendI)
  have "system_prompt ur ia tn t =
      (unlines prompt_segment0_lines @ ur @ unlines prompt_segment1_lines) @ ia @
      (unlines prompt_segment2_lines @ tn @ unlines prompt_segment3_lines @ t)"
    by (simp add: system_prompt_def)
  then show "sublist ia (system_prompt ur ia tn t)"
    by (simp only: sublist_appendI)
qed

lemma sublist_image_analysis:
  "sublist (case ia of None \<Rightarrow> no_image_analysis | Some a \<Rightarrow> a) (image_analysis_or_default ia)"
  by (cases ia) (simp_all add: image_analysis_or_default_def)

lemma formatMessages_embeds:
  "\<exists>text hist. formatMessages e cl st w = SystemMessage (Text text) # hist
     \<and> hist = messages st
     \<and> sublist (JSON_stringify e (cl_userResponses cl) (Some 2)) text
     \<and> sublist (case cl_imageAnalysis cl of None \<Rightarrow> no_image_analysis | Some a \<Rightarrow> a) text"
proof -
  let ?text = "system_prompt (JSON_stringify e (cl_userResponses cl) (Some 2))
        (image_analysis_or_default (cl_imageAnalysis cl))
        (join '', '' (map tool_name tools))
        (toISOString e (Date_now e (length (trace w))))"
  have "sublist (case cl_imageAnalysis cl of None \<Rightarrow> no_image_analysis | Some a \<Rightarrow> a) ?text"
    using sublist_image_analysis[of "cl_imageAnalysis cl"] sublist_system_prompt(2)
    by (rule sublist_order.order.trans)
  then show ?thesis
    by (simp add: formatMessages_def sublist_system_prompt(1))
qed


lemma ex_env_parse: "JSON_parse ex_env ''{}'' = Inr (JObject [])"
  by (simp add: ex_env_def)

lemma ex_env_stringify: "JSON_stringify ex_env (JObject []) (Some 2) = ''{}''"
  by (simp add: ex_env_def)

lemma ex_env_image:
  "image_branch ex_env (Some ''public/images/face.jpg'') ex_world =
     (Inr (Some ''oily skin, mild acne''),
      log_event (VisionInvoke (vision_messages ex_env ''JFIF'')) ex_world)"
  by (simp add: image_branch_def ex_env_def Let_def)


lemma post_chat_success:
  assumes "post_chat e req_body file_path w = (r, w')" and "status r = 200"
  shows "\<exists>response.
           callAgent e (JSON_stringify e (post_chat_userResponses req_body) None)
             (post_chat_threadId e w) (post_chat_path file_path) w = (Inr response, w')
         \<and> body r = JObject [(''threadId'', JString (post_chat_threadId e w)),
                             (''response'', content_json response)]"
  using assms
  by (auto simp: post_chat_def Let_def internal_server_error_def split: prod.splits sum.splits)

lemma run_call_result_any_world:
  "fst (run_call e toolNode call w) = fst (run_call e toolNode call w')"
  by (simp add: run_call_def toolNode_def ToolNode_def tools_def tool_invoke_def
      prodLookupTool_def prodLookupTool_func_def Let_def split: sum.splits prod.splits)

lemma run_calls_answers:
  assumes "run_calls e toolNode cs w = (Inr ms, w')"
  shows "list_all2 (\<lambda>call m. fst (run_call e toolNode call w0) = Inr m) cs ms"
  using assms
proof (induction cs arbitrary: w ms w')
  case Nil
  then show ?case by simp
next
  case (Cons c cs)
  obtain r1 w1 where c1: "run_call e toolNode c w = (r1, w1)" by (cases "run_call e toolNode c w")
  with Cons.prems obtain m where m: "r1 = Inr m" by (cases r1) simp_all
  obtain r2 w2 where c2: "run_calls e toolNode cs w1 = (r2, w2)"
    by (cases "run_calls e toolNode cs w1")
  with Cons.prems c1 m obtain ms' where ms': "r2 = Inr ms'" "ms = m # ms'"
    by (cases r2) auto
  from c1 m have "fst (run_call e toolNode c w0) = Inr m"
    using run_call_result_any_world[of e c w0 w] by simp
  moreover from Cons.IH[OF c2[unfolded ms'(1)]]
  have "list_all2 (\<lambda>call m. fst (run_call e toolNode call w0) = Inr m) cs ms'" .
  ultimately show ?case using ms'(2) by simp
qed

lemma toolNode_run_answers:
  assumes "messages st \<noteq> []" and "last (messages st) = AIMessage c tcs"
  shows "\<exists>ms w2. toolNode_run e toolNode st w = (Inr ms, w2)
           \<and> list_all2 (\<lambda>call m. fst (run_call e toolNode call w) = Inr m) tcs ms"
proof -
  from toolNode_run_total[OF assms, of e w] obtain ms w2 where
    t: "toolNode_run e toolNode st w = (Inr ms, w2)" by blast
  with assms have "run_calls e toolNode tcs w = (Inr ms, w2)"
    by (simp add: toolNode_run_def)
  from run_calls_answers[OF this] t show ?thesis by blast
qed

lemma run_call_unknown_tool:
  assumes "tc_name call \<noteq> ''product_lookup''"
  shows "run_call e toolNode call w = (Inr (tool_error_message (ToolNotFound (tc_name call)) call), w)"
  using assms
  by (simp add: run_call_def toolNode_def ToolNode_def tools_def prodLookupTool_def)

lemma loop_Tools_then_Agent:
  assumes "messages st \<noteq> []" and "last (messages st) = AIMessage c tcs"
  shows "\<exists>ms w2. toolNode_run e toolNode st w = (Inr ms, w2)
           \<and> list_all2 (\<lambda>call m. fst (run_call e toolNode call w) = Inr m) tcs ms
           \<and> pregel_loop e cl (Suc (Suc k)) Tools st w =
               pregel_loop e cl (Suc k) Agent (st\<lparr>messages := messages st @ ms\<rparr>)
                 (put_checkpoint (cl_thread_id cl) (st\<lparr>messages := messages st @ ms\<rparr>) w2)
           \<and> (\<exists>sys evs. trace (snd (pregel_loop e cl (Suc (Suc k)) Tools st w))
                  = trace w2 @ ModelInvoke (SystemMessage sys # messages st @ ms) # evs)"
proof -
  from toolNode_run_answers[OF assms, of e w] obtain ms w2 where
    t: "toolNode_run e toolNode st w = (Inr ms, w2)"
    and a: "list_all2 (\<lambda>call m. fst (run_call e toolNode call w) = Inr m) tcs ms" by blast
  let ?st = "st\<lparr>messages := messages st @ ms\<rparr>"
  let ?w = "put_checkpoint (cl_thread_id cl) ?st w2"
  have u: "pregel_loop e cl (Suc (Suc k)) Tools st w = pregel_loop e cl (Suc k) Agent ?st ?w"
    using t by (simp add: write_messages_def messages_reducer_def Let_def)
  obtain r w' where rw: "pregel_loop e cl (Suc k) Agent ?st ?w = (r, w')"
    by (cases "pregel_loop e cl (Suc k) Agent ?st ?w")
  from loop_first_event[OF rw] obtain evs where
    "trace w' = trace w2 @ ModelInvoke (formatMessages e cl ?st ?w) # evs"
    by (auto simp: trace_put_checkpoint)
  then have "\<exists>sys evs. trace w' = trace w2 @ ModelInvoke (SystemMessage sys # messages st @ ms) # evs"
    by (auto simp: formatMessages_def)
  with t a u rw show ?thesis by auto
qed

lemma callAgent_reply:
  assumes run: "callAgent e query thread_id image_path w0 = (Inr r, w')"
  shows "\<exists>p c'. trace w' \<noteq> [] \<and> last (trace w') = ModelInvoke p
                \<and> model_invoke e p = Inr (c', []) \<and> r = Text c'"
proof -
  from run obtain ur where ur: "JSON_parse e query = Inr ur"
    by (cases "JSON_parse e query") (simp_all add: callAgent_def)
  obtain ri w1 where ib: "image_branch e image_path w0 = (ri, w1)"
    by (cases "image_branch e image_path w0")
  with run ur obtain ia where ia: "ri = Inr ia"
    by (cases ri) (simp_all add: callAgent_def)
  let ?cl = "\<lparr> cl_userResponses = ur, cl_imageAnalysis = ia,
               cl_thread_id = thread_id, cl_recursionLimit = 15 \<rparr>"
  let ?inp = "\<lparr> messages = [HumanMessage (Text seed_request_text)],
               imageAnalysis = ia, userResponses = ur \<rparr>"
  obtain rf w2 where ai: "app_invoke e ?cl ?inp w1 = (rf, w2)"
    by (cases "app_invoke e ?cl ?inp w1")
  from run callAgent_unfold[OF ur ib[unfolded ia], of thread_id] ai
  obtain fs where fs: "rf = Inr fs" "w' = w2" "r = message_content (last (messages fs))"
    by (cases rf) (auto split: if_splits)
  from ai fs(1) have "pregel_loop e ?cl 15 Agent
       (write_input (load_checkpoint w1 thread_id) ?inp)
       (put_checkpoint thread_id (write_input (load_checkpoint w1 thread_id) ?inp) w1) = (Inr fs, w2)"
    by (simp add: app_invoke_unfold)
  from loop_success_last[OF this] obtain p c' where
    "trace w2 \<noteq> []" "last (trace w2) = ModelInvoke p" "model_invoke e p = Inr (c', [])"
    "last (messages fs) = AIMessage c' []"
    by auto
  with fs show ?thesis by auto
qed

lemma post_chat_thread_success:
  assumes "post_chat_thread e thread_id message w = (r, w')" and "status r = 200"
  shows "\<exists>response. callAgent e message thread_id None w = (Inr response, w')
           \<and> body r = JObject [(''response'', content_json response)]"
  using assms
  by (auto simp: post_chat_thread_def internal_server_error_def split: prod.splits sum.splits)

lemma callAgent_first_answer:
  assumes ur: "JSON_parse e message = Inr ur"
    and m: "model_invoke e (formatMessages e
              \<lparr> cl_userResponses = ur, cl_imageAnalysis = None,
                cl_thread_id = thread_id, cl_recursionLimit = 15 \<rparr>
              (write_input (load_checkpoint w thread_id)
                 \<lparr> messages = [HumanMessage (Text seed_request_text)],
                   imageAnalysis = None, userResponses = ur \<rparr>) w) = Inr (c, [])"
  shows "fst (callAgent e message thread_id None w) = Inr (Text c)"
proof -
  let ?cl = "\<lparr> cl_userResponses = ur, cl_imageAnalysis = None,
               cl_thread_id = thread_id, cl_recursionLimit = 15 \<rparr>"
  let ?inp = "\<lparr> messages = [HumanMessage (Text seed_request_text)],
               imageAnalysis = None, userResponses = ur \<rparr>"
  let ?st = "write_input (load_checkpoint w thread_id) ?inp"
  let ?w = "put_checkpoint thread_id ?st w"
  from m have "model_invoke e (formatMessages e ?cl ?st ?w) = Inr (c, [])"
    by (simp add: formatMessages_put_checkpoint)
  from loop_answer[OF this, of 13]
  have "fst (pregel_loop e ?cl 15 Agent ?st ?w)
        = Inr (?st\<lparr>messages := messages ?st @ [AIMessage c []]\<rparr>)"
    by simp
  then show ?thesis
    using ur by (auto simp: callAgent_no_image app_invoke_unfold split: prod.splits)
qed

lemma post_chat_thread_first_answer:
  assumes "JSON_parse e message = Inr ur"
    and "model_invoke e (formatMessages e
              \<lparr> cl_userResponses = ur, cl_imageAnalysis = None,
                cl_thread_id = thread_id, cl_recursionLimit = 15 \<rparr>
              (write_input (load_checkpoint w thread_id)
                 \<lparr> messages = [HumanMessage (Text seed_request_text)],
                   imageAnalysis = None, userResponses = ur \<rparr>) w) = Inr (c, [])"
  shows "fst (post_chat_thread e thread_id message w)
           = \<lparr> status = 200, body = JObject [(''response'', JString c)] \<rparr>"
  using callAgent_first_answer[OF assms]
  by (auto simp: post_chat_thread_def split: prod.splits sum.splits)

lemma ex_env_answers: "model_invoke ex_env prompt = Inr (''Use a gentle cleanser.'', [])"
  by (simp add: ex_env_def)

lemma ex_post_chat_thread_run:
  "post_chat_thread ex_env ''t1'' ''{}'' ex_world =
     (\<lparr> status = 200, body = JObject [(''response'', JString ''Use a gentle cleanser.'')] \<rparr>,
      snd (post_chat_thread ex_env ''t1'' ''{}'' ex_world))"
  by (simp add: post_chat_thread_def run_simps ex_simps)

lemma ex_post_chat_run:
  "post_chat ex_env ex_questionnaire None ex_world =
     (\<lparr> status = 200, body = JObject [(''threadId'', JString ''1700000000000''),
                                      (''response'', JString ''Use a gentle cleanser.'')] \<rparr>,
      snd (post_chat ex_env ex_questionnaire None ex_world))"
  by (simp add: post_chat_def post_chat_threadId_def post_chat_userResponses_def
      post_chat_path_def toString_nat.simps digit_char_def run_simps ex_simps)

lemma tool_names: "join '', '' (map tool_name tools) = ''product_lookup''"
  by (simp add: join_def tools_def prodLookupTool_def)











lemma callAgent_split:
  "callAgent e query thread_id image_path w =
     (case callAgent_begin e query thread_id image_path w of
        (Inl err, w1) \<Rightarrow> (Inl err, w1)
      | (Inr (cl, st0), w1) \<Rightarrow> callAgent_finish e cl st0 w1)"
  by (simp add: callAgent_def callAgent_begin_def callAgent_finish_def app_invoke_def Let_def
      split: sum.splits prod.splits)










section \<open>The claims\<close>

text \<open>
  C1, as stated, fails.  \<^verbatim>\<open>recursionLimit: 15\<close> counts the steps of the graph, and the
  \<^verbatim>\<open>agent\<close> and \<^verbatim>\<open>tools\<close> nodes take one step each: with a model that asks for a tool in
  every reply the run is aborted once the eighth AGENT turn has been answered.  There is
  no fifteenth AGENT attempt.
\<close>

theorem fifteenth_agent_attempt_counterexample:
  "fst (callAgent ex_env_loop ''{}'' ''t1'' None ex_world) = Inl (GraphRecursionError 15)
   \<and> agent_invocations (snd (callAgent ex_env_loop ''{}'' ''t1'' None ex_world)) = 8
   \<and> agent_invocations (snd (callAgent ex_env_loop ''{}'' ''t1'' None ex_world)) \<noteq> 15"
  using callAgent_always_tools[of ex_env_loop "''{}''" "JObject []" None ex_world None ex_world "''t1''",
      OF ex_env_loop_always ex_env_loop_parse image_branch_None]
  by (simp add: ex_agent_invocations)

text \<open>
  C1, amended.  Every call of \<open>callAgent\<close> returns, with a response or an error, after
  at most 8 AGENT invocations (15 graph steps, AGENT and TOOLS turns alternating).  With
  a model that asks for a tool in every reply, and a query and image that get the run
  started, the error is \<^verbatim>\<open>GraphRecursionError\<close> and the AGENT has been invoked exactly
  8 times.
\<close>

theorem recursion_limit_bounds_agent_turns:
  "agent_invocations (snd (callAgent e query thread_id image_path w)) \<le> agent_invocations w + 8
   \<and> ((\<forall>p. \<exists>c tcs. model_invoke e p = Inr (c, tcs) \<and> tcs \<noteq> [])
        \<and> JSON_parse e query = Inr ur
        \<and> image_branch e image_path w = (Inr ia, w1) \<longrightarrow>
      fst (callAgent e query thread_id image_path w) = Inl (GraphRecursionError 15)
      \<and> agent_invocations (snd (callAgent e query thread_id image_path w)) = agent_invocations w + 8)"
  using callAgent_agent_bound callAgent_always_tools by blast

theorem recursion_limit_bounds_agent_turns_witness:
  "agent_invocations (snd (callAgent ex_env_loop ''{}'' ''t2'' (Some ''public/images/face.jpg'') ex_world)) \<le> 8
   \<and> fst (callAgent ex_env_loop ''{}'' ''t2'' (Some ''public/images/face.jpg'') ex_world)
        = Inl (GraphRecursionError 15)
   \<and> agent_invocations (snd (callAgent ex_env_loop ''{}'' ''t2'' (Some ''public/images/face.jpg'') ex_world)) = 8"
  using recursion_limit_bounds_agent_turns[of ex_env_loop "''{}''" "''t2''"
      "Some ''public/images/face.jpg''" ex_world "JObject []" "Some ''oily skin, mild acne''"
      "log_event (VisionInvoke (vision_messages ex_env_loop ''JFIF'')) ex_world"]
    ex_env_loop_always ex_env_loop_parse ex_env_loop_image
  by (simp add: ex_agent_invocations)

text \<open>
  C2.  A \<^verbatim>\<open>product_lookup\<close> request that omits \<^verbatim>\<open>n\<close> reaches the retriever with
  \<open>n = 10\<close>: the schema's \<^verbatim>\<open>.default(10)\<close> fills the property in before the handler
  runs, so the handler's own default \<^verbatim>\<open>n = 4\<close>, which it would use on an object without
  \<^verbatim>\<open>n\<close>, never applies.
\<close>

theorem product_lookup_omitted_n:
  "trace (snd (tool_invoke e prodLookupTool
       \<lparr> tc_name = ''product_lookup'', tc_args = JObject [(''query'', JString q)], tc_id = i \<rparr> w))
     = trace w @ [SearchInvoke (JString q) (JNumber 10)]
   \<and> trace (snd (prodLookupTool_func e (JObject [(''query'', JString q)]) w))
     = trace w @ [SearchInvoke (JString q) (JNumber 4)]"
  by (simp add: tool_invoke_def prodLookupTool_def prodLookupTool_schema_def
      prodLookupTool_func_world trace_log_event split: sum.splits)

text \<open>
  C3, as stated, fails.  The model asks for \<^verbatim>\<open>product_lookup\<close> with arguments that
  lack \<^verbatim>\<open>query\<close>; the schema rejects them; the tool node answers with an error
  message; the model sees it and replies; the request succeeds.  The same happens when
  the search itself fails.
\<close>

theorem tool_failure_is_fatal_counterexample:
  "fst (tool_invoke ex_env_bad_args prodLookupTool ex_bad_call ex_world) = Inl ToolInputParsingException
   \<and> fst (callAgent ex_env_bad_args ''{}'' ''t1'' None ex_world) = Inr (Text ''Sorry, the lookup failed.'')
   \<and> map_option messages (store (snd (callAgent ex_env_bad_args ''{}'' ''t1'' None ex_world)) ''t1'')
       = Some [HumanMessage (Text seed_request_text),
               AIMessage [] [ex_bad_call],
               ToolMessage (''Error: Received tool input did not match expected schema''
                            @ [CHR 0x0A] @ '' Please fix your mistakes.'')
                 ''product_lookup'' ''call_2'',
               AIMessage ''Sorry, the lookup failed.'' []]
   \<and> fst (callAgent ex_env_search_down ''{}'' ''t1'' None ex_world) = Inr (Text ''Sorry, the lookup failed.'')
   \<and> map_option messages (store (snd (callAgent ex_env_search_down ''{}'' ''t1'' None ex_world)) ''t1'')
       = Some [HumanMessage (Text seed_request_text),
               AIMessage [] [ex_call],
               ToolMessage (''Error: search unavailable'' @ [CHR 0x0A] @ '' Please fix your mistakes.'')
                 ''product_lookup'' ''call_1'',
               AIMessage ''Sorry, the lookup failed.'' []]"
  by (simp add: run_simps ex_simps formatMessages_def)

text \<open>
  C3, amended.  A tool call never aborts the run.  Whatever its validation or its handler
  throws is answered by the tool node with the tool message
  \<^verbatim>\<open>Error: <message>\n Please fix your mistakes.\<close> under the call's name and identifier,
  and so is a call of a tool that does not exist.  On an assistant message the node
  returns, in request order, exactly the answers of its calls; they are appended, and the
  next AGENT turn is invoked with the history that ends in them.  An error that does abort
  \<open>callAgent\<close> reaches the caller of the route as the generic failure, with no part of the
  run in the response.
\<close>

theorem tool_failure_is_reported_to_model:
  "(\<exists>m. fst (run_call e toolNode call w) = Inr m)
   \<and> (tool_invoke e prodLookupTool call w = (Inl err, w1) \<and> tc_name call = ''product_lookup'' \<longrightarrow>
        run_call e toolNode call w = (Inr (tool_error_message err call), w1)
        \<and> tool_error_message err call =
            ToolMessage (''Error: '' @ error_message err @ [CHR 0x0A] @ '' Please fix your mistakes.'')
              (tc_name call) (tc_id call))
   \<and> (tc_name call \<noteq> ''product_lookup'' \<longrightarrow>
        run_call e toolNode call w
          = (Inr (ToolMessage (''Error: Tool '' @ [CHR 0x22] @ tc_name call @ [CHR 0x22] @
                               '' not found.'' @ [CHR 0x0A] @ '' Please fix your mistakes.'')
                    (tc_name call) (tc_id call)), w))
   \<and> (messages st \<noteq> [] \<and> last (messages st) = AIMessage c tcs \<longrightarrow>
        (\<exists>ms w2. toolNode_run e toolNode st w = (Inr ms, w2) \<and> length ms = length tcs
           \<and> list_all2 (\<lambda>call m. fst (run_call e toolNode call w) = Inr m) tcs ms
           \<and> pregel_loop e cl (Suc (Suc k)) Tools st w =
               pregel_loop e cl (Suc k) Agent (st\<lparr>messages := messages st @ ms\<rparr>)
                 (put_checkpoint (cl_thread_id cl) (st\<lparr>messages := messages st @ ms\<rparr>) w2)
           \<and> (\<exists>sys evs. trace (snd (pregel_loop e cl (Suc (Suc k)) Tools st w))
                  = trace w2 @ ModelInvoke (SystemMessage sys # messages st @ ms) # evs)
           \<and> tl (formatMessages e cl (st\<lparr>messages := messages st @ ms\<rparr>) w3) = messages st @ ms))
   \<and> (fst (callAgent e message thread_id None w) = Inl err' \<longrightarrow>
        fst (post_chat_thread e thread_id message w) = internal_server_error)
   \<and> (fst (callAgent e (JSON_stringify e (post_chat_userResponses req_body) None)
              (post_chat_threadId e w) (post_chat_path file_path) w) = Inl err'' \<longrightarrow>
        fst (post_chat e req_body file_path w) = internal_server_error)"
proof (intro conjI impI)
  show "\<exists>m. fst (run_call e toolNode call w) = Inr m" by (rule run_call_total)
next
  assume a: "tool_invoke e prodLookupTool call w = (Inl err, w1) \<and> tc_name call = ''product_lookup''"
  then show "run_call e toolNode call w = (Inr (tool_error_message err call), w1)"
    by (simp add: run_call_handles_error)
  show "tool_error_message err call =
            ToolMessage (''Error: '' @ error_message err @ [CHR 0x0A] @ '' Please fix your mistakes.'')
              (tc_name call) (tc_id call)"
    by (simp add: tool_error_message_def)
next
  assume "tc_name call \<noteq> ''product_lookup''"
  from run_call_unknown_tool[OF this, of e w]
  show "run_call e toolNode call w
          = (Inr (ToolMessage (''Error: Tool '' @ [CHR 0x22] @ tc_name call @ [CHR 0x22] @
                               '' not found.'' @ [CHR 0x0A] @ '' Please fix your mistakes.'')
                    (tc_name call) (tc_id call)), w)"
    by (simp add: tool_error_message_def)
next
  assume "messages st \<noteq> [] \<and> last (messages st) = AIMessage c tcs"
  then have "messages st \<noteq> []" "last (messages st) = AIMessage c tcs" by simp_all
  from loop_Tools_then_Agent[OF this, of e w cl k] obtain ms w2 where
    t: "toolNode_run e toolNode st w = (Inr ms, w2)"
    and l: "list_all2 (\<lambda>call m. fst (run_call e toolNode call w) = Inr m) tcs ms"
    and u: "pregel_loop e cl (Suc (Suc k)) Tools st w =
               pregel_loop e cl (Suc k) Agent (st\<lparr>messages := messages st @ ms\<rparr>)
                 (put_checkpoint (cl_thread_id cl) (st\<lparr>messages := messages st @ ms\<rparr>) w2)"
    and tr: "\<exists>sys evs. trace (snd (pregel_loop e cl (Suc (Suc k)) Tools st w))
                  = trace w2 @ ModelInvoke (SystemMessage sys # messages st @ ms) # evs"
    by blast
  from l have len: "length ms = length tcs" by (simp add: list_all2_lengthD)
  have f: "tl (formatMessages e cl (st\<lparr>messages := messages st @ ms\<rparr>) w3) = messages st @ ms"
    by (simp add: formatMessages_history)
  from t len l u tr f
  show "\<exists>ms w2. toolNode_run e toolNode st w = (Inr ms, w2) \<and> length ms = length tcs
           \<and> list_all2 (\<lambda>call m. fst (run_call e toolNode call w) = Inr m) tcs ms
           \<and> pregel_loop e cl (Suc (Suc k)) Tools st w =
               pregel_loop e cl (Suc k) Agent (st\<lparr>messages := messages st @ ms\<rparr>)
                 (put_checkpoint (cl_thread_id cl) (st\<lparr>messages := messages st @ ms\<rparr>) w2)
           \<and> (\<exists>sys evs. trace (snd (pregel_loop e cl (Suc (Suc k)) Tools st w))
                  = trace w2 @ ModelInvoke (SystemMessage sys # messages st @ ms) # evs)
           \<and> tl (formatMessages e cl (st\<lparr>messages := messages st @ ms\<rparr>) w3) = messages st @ ms"
    by blast
next
  assume "fst (callAgent e message thread_id None w) = Inl err'"
  then show "fst (post_chat_thread e thread_id message w) = internal_server_error"
    by (rule post_chat_thread_hides_error)
next
  assume "fst (callAgent e (JSON_stringify e (post_chat_userResponses req_body) None)
              (post_chat_threadId e w) (post_chat_path file_path) w) = Inl err''"
  then show "fst (post_chat e req_body file_path w) = internal_server_error"
    by (rule post_chat_hides_error)
qed

lemma ex_unknown_call:
  "tc_name (ex_bad_call\<lparr>tc_name := ''price_lookup''\<rparr>) \<noteq> ''product_lookup''"
  by (simp add: ex_bad_call_def)

theorem tool_failure_is_reported_to_model_witness:
  "run_call ex_env_bad_args toolNode ex_bad_call ex_world
        = (Inr (ToolMessage (''Error: Received tool input did not match expected schema''
                             @ [CHR 0x0A] @ '' Please fix your mistakes.'')
                  ''product_lookup'' ''call_2''), ex_world)
   \<and> run_call ex_env_bad_args toolNode (ex_bad_call\<lparr>tc_name := ''price_lookup''\<rparr>) ex_world
        = (Inr (ToolMessage (''Error: Tool '' @ [CHR 0x22] @ ''price_lookup'' @ [CHR 0x22] @
                             '' not found.'' @ [CHR 0x0A] @ '' Please fix your mistakes.'')
                  ''price_lookup'' ''call_2''), ex_world)
   \<and> (\<exists>w2. toolNode_run ex_env_bad_args toolNode ex_tool_state ex_world
              = (Inr [ToolMessage (''Error: Received tool input did not match expected schema''
                                   @ [CHR 0x0A] @ '' Please fix your mistakes.'')
                        ''product_lookup'' ''call_2''], w2)
          \<and> (\<exists>sys evs. trace (snd (pregel_loop ex_env_bad_args ex_closure (Suc (Suc 1)) Tools
                                     ex_tool_state ex_world))
                 = trace w2 @ ModelInvoke (SystemMessage sys # messages ex_tool_state @
                     [ToolMessage (''Error: Received tool input did not match expected schema''
                                   @ [CHR 0x0A] @ '' Please fix your mistakes.'')
                        ''product_lookup'' ''call_2'']) # evs))
   \<and> fst (post_chat_thread ex_env_bad_args ''t1'' ''hello'' ex_world) = internal_server_error
   \<and> fst (post_chat ex_env_bad_args ex_questionnaire (Some ''public/images/none.jpg'') ex_world)
        = internal_server_error"
proof -
  have n: "tc_name ex_bad_call = ''product_lookup''" by (simp add: ex_bad_call_def)
  have i: "tc_id ex_bad_call = ''call_2''" by (simp add: ex_bad_call_def)
  have s1: "messages ex_tool_state \<noteq> []" by (simp add: ex_tool_state_def)
  have s2: "last (messages ex_tool_state) = AIMessage [] [ex_bad_call]"
    by (simp add: ex_tool_state_def)
  have f1: "fst (callAgent ex_env_bad_args ''hello'' ''t1'' None ex_world) = Inl (SyntaxError ''Unexpected token'')"
    by (simp add: callAgent_def ex_env_bad_args_def ex_env_def)
  have f2: "fst (callAgent ex_env_bad_args
              (JSON_stringify ex_env_bad_args (post_chat_userResponses ex_questionnaire) None)
              (post_chat_threadId ex_env_bad_args ex_world)
              (post_chat_path (Some ''public/images/none.jpg'')) ex_world)
            = Inl (IOError ''ENOENT'')"
    by (simp add: callAgent_def image_branch_def Let_def post_chat_path_def
        post_chat_userResponses_def ex_env_bad_args_def ex_env_def)
  note inst = tool_failure_is_reported_to_model[where e = ex_env_bad_args and call = ex_bad_call
      and w = ex_world and err = ToolInputParsingException and ?w1.0 = ex_world
      and st = ex_tool_state and c = "[]" and tcs = "[ex_bad_call]" and cl = ex_closure
      and k = 1 and ?w3.0 = ex_world
      and message = "''hello''" and thread_id = "''t1''" and err' = "SyntaxError ''Unexpected token''"
      and req_body = ex_questionnaire and file_path = "Some ''public/images/none.jpg''"
      and err'' = "IOError ''ENOENT''"]
  from inst ex_bad_call_rejected n i
  have a: "run_call ex_env_bad_args toolNode ex_bad_call ex_world
        = (Inr (ToolMessage (''Error: Received tool input did not match expected schema''
                             @ [CHR 0x0A] @ '' Please fix your mistakes.'')
                  ''product_lookup'' ''call_2''), ex_world)"
    by simp
  from inst s1 s2 obtain ms w2 where
    t: "toolNode_run ex_env_bad_args toolNode ex_tool_state ex_world = (Inr ms, w2)"
    and l: "list_all2 (\<lambda>call m. fst (run_call ex_env_bad_args toolNode call ex_world) = Inr m)
              [ex_bad_call] ms"
    and tr: "\<exists>sys evs. trace (snd (pregel_loop ex_env_bad_args ex_closure (Suc (Suc 1)) Tools
                                     ex_tool_state ex_world))
                 = trace w2 @ ModelInvoke (SystemMessage sys # messages ex_tool_state @ ms) # evs"
    by blast
  from l a have ms: "ms = [ToolMessage (''Error: Received tool input did not match expected schema''
                                   @ [CHR 0x0A] @ '' Please fix your mistakes.'')
                        ''product_lookup'' ''call_2'']"
    by (auto simp: list_all2_Cons1)
  from inst f1 f2 have r: "fst (post_chat_thread ex_env_bad_args ''t1'' ''hello'' ex_world) = internal_server_error"
    "fst (post_chat ex_env_bad_args ex_questionnaire (Some ''public/images/none.jpg'') ex_world)
        = internal_server_error"
    by blast+
  from tool_failure_is_reported_to_model[where e = ex_env_bad_args and w = ex_world
      and call = "ex_bad_call\<lparr>tc_name := ''price_lookup''\<rparr>"] ex_unknown_call
  have u: "run_call ex_env_bad_args toolNode (ex_bad_call\<lparr>tc_name := ''price_lookup''\<rparr>) ex_world
        = (Inr (ToolMessage (''Error: Tool '' @ [CHR 0x22] @ ''price_lookup'' @ [CHR 0x22] @
                             '' not found.'' @ [CHR 0x0A] @ '' Please fix your mistakes.'')
                  ''price_lookup'' ''call_2''), ex_world)"
    by (simp add: ex_bad_call_def)
  from a u t tr ms r show ?thesis by blast
qed




text \<open>
  C5.  A new-conversation request with an image, whose questionnaire survives the JSON
  round trip and whose image file can be read, invokes the vision model exactly once,
  whatever that invocation and the rest of the run do.  If the invocation fails,
  \<open>callAgent\<close> fails with the error the vision model raised, the route answers with the
  generic failure, and the only collaborator call of the request is that one: no AGENT
  turn has run.
\<close>

theorem vision_model_invoked_once:
  assumes "JSON_parse e (JSON_stringify e (post_chat_userResponses req_body) None) = Inr ur"
    and "p \<noteq> []" and "readFileSync e p = Inr file"
  shows "vision_invocations (snd (post_chat e req_body (Some p) w)) = vision_invocations w + 1
       \<and> (vision_invoke e (vision_messages e file) = Inl err \<longrightarrow>
            callAgent e (JSON_stringify e (post_chat_userResponses req_body) None)
                (post_chat_threadId e w) (Some p) w
              = (Inl err, log_event (VisionInvoke (vision_messages e file)) w)
            \<and> post_chat e req_body (Some p) w
              = (internal_server_error, log_event (VisionInvoke (vision_messages e file)) w)
            \<and> agent_invocations (snd (post_chat e req_body (Some p) w)) = agent_invocations w)"
proof (intro conjI impI)
  show "vision_invocations (snd (post_chat e req_body (Some p) w)) = vision_invocations w + 1"
    using callAgent_with_image(1)[OF assms] assms(2)
    by (simp add: post_chat_world post_chat_path_Some)
next
  assume v: "vision_invoke e (vision_messages e file) = Inl err"
  from callAgent_with_image(2)[OF assms v]
  show c: "callAgent e (JSON_stringify e (post_chat_userResponses req_body) None)
                (post_chat_threadId e w) (Some p) w
              = (Inl err, log_event (VisionInvoke (vision_messages e file)) w)" .
  then show pc: "post_chat e req_body (Some p) w
              = (internal_server_error, log_event (VisionInvoke (vision_messages e file)) w)"
    using assms(2) by (simp add: post_chat_def Let_def post_chat_path_Some)
  then show "agent_invocations (snd (post_chat e req_body (Some p) w)) = agent_invocations w"
    by (simp add: agent_log_vision)
qed

theorem vision_model_invoked_once_witness:
  "vision_invocations (snd (post_chat ex_env ex_questionnaire (Some ''public/images/face.jpg'') ex_world))
      = vision_invocations ex_world + 1
   \<and> vision_invocations (snd (post_chat ex_env_vision_down ex_questionnaire
         (Some ''public/images/face.jpg'') ex_world)) = vision_invocations ex_world + 1
   \<and> post_chat ex_env_vision_down ex_questionnaire (Some ''public/images/face.jpg'') ex_world
      = (internal_server_error,
         log_event (VisionInvoke (vision_messages ex_env_vision_down ''JFIF'')) ex_world)
   \<and> agent_invocations (snd (post_chat ex_env_vision_down ex_questionnaire
         (Some ''public/images/face.jpg'') ex_world)) = agent_invocations ex_world"
proof -
  have j1: "JSON_parse ex_env (JSON_stringify ex_env (post_chat_userResponses ex_questionnaire) None)
              = Inr (JObject [])"
    by (simp add: ex_env_def post_chat_userResponses_def)
  have j2: "JSON_parse ex_env_vision_down
              (JSON_stringify ex_env_vision_down (post_chat_userResponses ex_questionnaire) None)
              = Inr (JObject [])"
    by (simp add: ex_env_vision_down_def ex_env_def post_chat_userResponses_def)
  have p: "''public/images/face.jpg'' \<noteq> []" by simp
  have r1: "readFileSync ex_env ''public/images/face.jpg'' = Inr ''JFIF''"
    by (simp add: ex_env_def)
  have r2: "readFileSync ex_env_vision_down ''public/images/face.jpg'' = Inr ''JFIF''"
    by (simp add: ex_env_vision_down_def ex_env_def)
  have v: "vision_invoke ex_env_vision_down (vision_messages ex_env_vision_down ''JFIF'')
             = Inl (ModelInvocationError ''overloaded'')"
    by (simp add: ex_env_vision_down_def ex_env_def)
  from vision_model_invoked_once[OF j1 p r1, of ex_world]
       vision_model_invoked_once[OF j2 p r2, of ex_world "ModelInvocationError ''overloaded''"] v
  show ?thesis by blast
qed

text \<open>
  C6, as stated, fails.  The model asks for the tool on seven turns and answers, without
  tool calls, on the eighth.  That reply is the fifteenth step of the graph, the last the
  recursion limit allows, and the run is aborted: the reply is in the checkpoint, the
  caller gets the generic failure.
\<close>

theorem reply_on_last_step_counterexample:
  "fst (callAgent ex_env_eighth ''{}'' ''t1'' None ex_world) = Inl (GraphRecursionError 15)
   \<and> map_option (last \<circ> messages)
         (store (snd (callAgent ex_env_eighth ''{}'' ''t1'' None ex_world)) ''t1'')
       = Some (AIMessage ''Use a gentle cleanser.'' [])
   \<and> fst (post_chat_thread ex_env_eighth ''t1'' ''{}'' ex_world) = internal_server_error"
  by (simp add: run_simps ex_simps formatMessages_def post_chat_thread_def)

text \<open>
  C6, amended.  When the reply of an AGENT turn carries no tool calls and the turn is not
  the last step the recursion limit allows, the run ends with that turn: the loop returns
  the state extended by the reply alone.  On the last allowed step the run is aborted with
  \<^verbatim>\<open>GraphRecursionError\<close> instead.  Whenever \<open>callAgent\<close> returns a response, the last
  collaborator call was a model invocation whose reply had no tool calls, and the response
  is the text of that reply; a route that answers 200 sends that text as \<^verbatim>\<open>response\<close>;
  and a continuing request whose first AGENT turn is answered without tool calls gets
  status 200 with that answer.
\<close>

theorem reply_without_tool_calls_ends_run:
  "(model_invoke e (formatMessages e cl st w) = Inr (c, []) \<longrightarrow>
      pregel_loop e cl (Suc (Suc k)) Agent st w =
        (Inr (st\<lparr>messages := messages st @ [AIMessage c []]\<rparr>),
         put_checkpoint (cl_thread_id cl) (st\<lparr>messages := messages st @ [AIMessage c []]\<rparr>)
           (log_event (ModelInvoke (formatMessages e cl st w)) w))
      \<and> pregel_loop e cl (Suc 0) Agent st w =
        (Inl (GraphRecursionError (cl_recursionLimit cl)),
         put_checkpoint (cl_thread_id cl) (st\<lparr>messages := messages st @ [AIMessage c []]\<rparr>)
           (log_event (ModelInvoke (formatMessages e cl st w)) w)))
   \<and> (callAgent e query thread_id image_path w0 = (Inr r, w') \<longrightarrow>
        (\<exists>p c'. trace w' \<noteq> [] \<and> last (trace w') = ModelInvoke p
                \<and> model_invoke e p = Inr (c', []) \<and> r = Text c'))
   \<and> (post_chat_thread e thread_id message w0 = (resp, w'') \<and> status resp = 200 \<longrightarrow>
        (\<exists>p c'. trace w'' \<noteq> [] \<and> last (trace w'') = ModelInvoke p
                \<and> model_invoke e p = Inr (c', [])
                \<and> body resp = JObject [(''response'', JString c')]))
   \<and> (post_chat e req_body file_path w0 = (resp', w''') \<and> status resp' = 200 \<longrightarrow>
        (\<exists>p c'. trace w''' \<noteq> [] \<and> last (trace w''') = ModelInvoke p
                \<and> model_invoke e p = Inr (c', [])
                \<and> body resp' = JObject [(''threadId'', JString (post_chat_threadId e w0)),
                                         (''response'', JString c')]))
   \<and> (JSON_parse e message = Inr ur
        \<and> model_invoke e (formatMessages e
              \<lparr> cl_userResponses = ur, cl_imageAnalysis = None,
                cl_thread_id = thread_id, cl_recursionLimit = 15 \<rparr>
              (write_input (load_checkpoint w0 thread_id)
                 \<lparr> messages = [HumanMessage (Text seed_request_text)],
                   imageAnalysis = None, userResponses = ur \<rparr>) w0) = Inr (c0, []) \<longrightarrow>
        fst (post_chat_thread e thread_id message w0)
          = \<lparr> status = 200, body = JObject [(''response'', JString c0)] \<rparr>)"
proof (intro conjI impI)
  assume m: "model_invoke e (formatMessages e cl st w) = Inr (c, [])"
  then show "pregel_loop e cl (Suc (Suc k)) Agent st w =
        (Inr (st\<lparr>messages := messages st @ [AIMessage c []]\<rparr>),
         put_checkpoint (cl_thread_id cl) (st\<lparr>messages := messages st @ [AIMessage c []]\<rparr>)
           (log_event (ModelInvoke (formatMessages e cl st w)) w))"
    by (rule loop_answer)
  from m show "pregel_loop e cl (Suc 0) Agent st w =
        (Inl (GraphRecursionError (cl_recursionLimit cl)),
         put_checkpoint (cl_thread_id cl) (st\<lparr>messages := messages st @ [AIMessage c []]\<rparr>)
           (log_event (ModelInvoke (formatMessages e cl st w)) w))"
    by (simp add: callModel_def Let_def write_messages_def messages_reducer_def
        shouldContinue_after_agent)
next
  assume "callAgent e query thread_id image_path w0 = (Inr r, w')"
  then show "\<exists>p c'. trace w' \<noteq> [] \<and> last (trace w') = ModelInvoke p
                \<and> model_invoke e p = Inr (c', []) \<and> r = Text c'"
    by (rule callAgent_reply)
next
  assume "post_chat_thread e thread_id message w0 = (resp, w'') \<and> status resp = 200"
  then have a: "post_chat_thread e thread_id message w0 = (resp, w'')" "status resp = 200"
    by simp_all
  from post_chat_thread_success[OF a] obtain response where
    c: "callAgent e message thread_id None w0 = (Inr response, w'')"
    and b: "body resp = JObject [(''response'', content_json response)]" by blast
  from callAgent_reply[OF c] b
  show "\<exists>p c'. trace w'' \<noteq> [] \<and> last (trace w'') = ModelInvoke p
                \<and> model_invoke e p = Inr (c', [])
                \<and> body resp = JObject [(''response'', JString c')]"
    by auto
next
  assume "post_chat e req_body file_path w0 = (resp', w''') \<and> status resp' = 200"
  then have a: "post_chat e req_body file_path w0 = (resp', w''')" "status resp' = 200"
    by simp_all
  from post_chat_success[OF a] obtain response where
    c: "callAgent e (JSON_stringify e (post_chat_userResponses req_body) None)
             (post_chat_threadId e w0) (post_chat_path file_path) w0 = (Inr response, w''')"
    and b: "body resp' = JObject [(''threadId'', JString (post_chat_threadId e w0)),
                             (''response'', content_json response)]" by blast
  from callAgent_reply[OF c] b
  show "\<exists>p c'. trace w''' \<noteq> [] \<and> last (trace w''') = ModelInvoke p
                \<and> model_invoke e p = Inr (c', [])
                \<and> body resp' = JObject [(''threadId'', JString (post_chat_threadId e w0)),
                                         (''response'', JString c')]"
    by auto
next
  assume "JSON_parse e message = Inr ur
        \<and> model_invoke e (formatMessages e
              \<lparr> cl_userResponses = ur, cl_imageAnalysis = None,
                cl_thread_id = thread_id, cl_recursionLimit = 15 \<rparr>
              (write_input (load_checkpoint w0 thread_id)
                 \<lparr> messages = [HumanMessage (Text seed_request_text)],
                   imageAnalysis = None, userResponses = ur \<rparr>) w0) = Inr (c0, [])"
  then show "fst (post_chat_thread e thread_id message w0)
          = \<lparr> status = 200, body = JObject [(''response'', JString c0)] \<rparr>"
    by (simp add: post_chat_thread_first_answer)
qed

theorem reply_without_tool_calls_ends_run_witness:
  "pregel_loop ex_env ex_closure (Suc (Suc 0)) Agent ex_input ex_world =
        (Inr (ex_input\<lparr>messages := messages ex_input @ [AIMessage ''Use a gentle cleanser.'' []]\<rparr>),
         put_checkpoint (cl_thread_id ex_closure)
           (ex_input\<lparr>messages := messages ex_input @ [AIMessage ''Use a gentle cleanser.'' []]\<rparr>)
           (log_event (ModelInvoke (formatMessages ex_env ex_closure ex_input ex_world)) ex_world))
   \<and> pregel_loop ex_env ex_closure (Suc 0) Agent ex_input ex_world =
        (Inl (GraphRecursionError (cl_recursionLimit ex_closure)),
         put_checkpoint (cl_thread_id ex_closure)
           (ex_input\<lparr>messages := messages ex_input @ [AIMessage ''Use a gentle cleanser.'' []]\<rparr>)
           (log_event (ModelInvoke (formatMessages ex_env ex_closure ex_input ex_world)) ex_world))
   \<and> (\<exists>p c'. trace (snd (callAgent ex_env ''{}'' ''t1'' None ex_world)) \<noteq> []
         \<and> last (trace (snd (callAgent ex_env ''{}'' ''t1'' None ex_world))) = ModelInvoke p
         \<and> model_invoke ex_env p = Inr (c', [])
         \<and> Text ''Use a gentle cleanser.'' = Text c')
   \<and> (\<exists>p c'. last (trace (snd (post_chat_thread ex_env ''t1'' ''{}'' ex_world))) = ModelInvoke p
         \<and> model_invoke ex_env p = Inr (c', [])
         \<and> JObject [(''response'', JString ''Use a gentle cleanser.'')]
             = JObject [(''response'', JString c')])
   \<and> (\<exists>p c'. last (trace (snd (post_chat ex_env ex_questionnaire None ex_world))) = ModelInvoke p
         \<and> model_invoke ex_env p = Inr (c', [])
         \<and> JObject [(''threadId'', JString ''1700000000000''),
                     (''response'', JString ''Use a gentle cleanser.'')]
             = JObject [(''threadId'', JString (post_chat_threadId ex_env ex_world)),
                        (''response'', JString c')])
   \<and> fst (post_chat_thread ex_env ''t1'' ''{}'' ex_world)
        = \<lparr> status = 200, body = JObject [(''response'', JString ''Use a gentle cleanser.'')] \<rparr>"
proof -
  from reply_without_tool_calls_ends_run[where e = ex_env and cl = ex_closure and st = ex_input
      and w = ex_world and c = "''Use a gentle cleanser.''" and k = 0
      and query = "''{}''" and thread_id = "''t1''" and image_path = None and ?w0.0 = ex_world
      and r = "Text ''Use a gentle cleanser.''"
      and w' = "snd (callAgent ex_env ''{}'' ''t1'' None ex_world)"
      and message = "''{}''"
      and resp = "\<lparr> status = 200, body = JObject [(''response'', JString ''Use a gentle cleanser.'')] \<rparr>"
      and w'' = "snd (post_chat_thread ex_env ''t1'' ''{}'' ex_world)"
      and req_body = ex_questionnaire and file_path = None
      and resp' = "\<lparr> status = 200, body = JObject [(''threadId'', JString ''1700000000000''),
                                      (''response'', JString ''Use a gentle cleanser.'')] \<rparr>"
      and w''' = "snd (post_chat ex_env ex_questionnaire None ex_world)"
      and ur = "JObject []" and ?c0.0 = "''Use a gentle cleanser.''"]
    ex_env_answers ex_answer_run ex_post_chat_thread_run ex_post_chat_run ex_env_parse
  show ?thesis by simp
qed

text \<open>
  C7.  Every node writes its update through the \<open>messages\<close> reducer, which
  concatenates it at the end.  So the history with which a run ends extends the history
  with which it began, and after every request, failed or not, the checkpoint of the
  thread holds the history loaded for it, then the request's input, then what the run
  added.
\<close>

theorem history_is_append_only:
  "messages (fst (write_messages cl st upd w)) = messages st @ upd
   \<and> (pregel_loop e cl k nd st w = (Inr st', w') \<longrightarrow> prefix (messages st) (messages st'))
   \<and> (app_invoke e cl inp w = (r, w'') \<longrightarrow>
        (\<exists>s. store w'' (cl_thread_id cl) = Some s
            \<and> prefix (messages (load_checkpoint w (cl_thread_id cl)) @ messages inp) (messages s)
            \<and> (\<forall>fs. r = Inr fs \<longrightarrow> s = fs)))"
proof (intro conjI impI)
  show "messages (fst (write_messages cl st upd w)) = messages st @ upd"
    by (simp add: write_messages_def messages_reducer_def Let_def)
next
  assume "pregel_loop e cl k nd st w = (Inr st', w')"
  then show "prefix (messages st) (messages st')" by (rule loop_prefix)
next
  assume "app_invoke e cl inp w = (r, w'')"
  then show "\<exists>s. store w'' (cl_thread_id cl) = Some s
            \<and> prefix (messages (load_checkpoint w (cl_thread_id cl)) @ messages inp) (messages s)
            \<and> (\<forall>fs. r = Inr fs \<longrightarrow> s = fs)"
    by (rule app_invoke_store)
qed

theorem history_is_append_only_witness:
  "prefix [HumanMessage (Text seed_request_text)]
          [HumanMessage (Text seed_request_text), AIMessage ''Use a gentle cleanser.'' []]
   \<and> (\<exists>s. store (snd (app_invoke ex_env_bad_args ex_closure ex_input ex_world)) ''t1'' = Some s
          \<and> prefix [HumanMessage (Text seed_request_text)] (messages s))"
proof -
  from history_is_append_only[where e = ex_env and k = "Suc (Suc 0)" and nd = Agent
      and cl = "\<lparr> cl_userResponses = JObject [], cl_imageAnalysis = None,
         cl_thread_id = ''t1'', cl_recursionLimit = 15 \<rparr>"
      and st = "\<lparr> messages = [HumanMessage (Text seed_request_text)], imageAnalysis = None,
         userResponses = JObject [] \<rparr>" and w = ex_world] ex_loop_run
  have a: "prefix [HumanMessage (Text seed_request_text)]
          [HumanMessage (Text seed_request_text), AIMessage ''Use a gentle cleanser.'' []]"
    by simp
  from history_is_append_only[where e = ex_env_bad_args and w = ex_world
      and cl = ex_closure and inp = ex_input
      and r = "fst (app_invoke ex_env_bad_args ex_closure ex_input ex_world)"
      and w'' = "snd (app_invoke ex_env_bad_args ex_closure ex_input ex_world)"
      and st = ex_input and upd = "[]" and k = 0 and nd = End and st' = ex_input and w' = ex_world]
  have "\<exists>s. store (snd (app_invoke ex_env_bad_args ex_closure ex_input ex_world))
               (cl_thread_id ex_closure) = Some s
          \<and> prefix (messages (load_checkpoint ex_world (cl_thread_id ex_closure)) @ messages ex_input)
               (messages s)"
    by auto
  then have b: "\<exists>s. store (snd (app_invoke ex_env_bad_args ex_closure ex_input ex_world)) ''t1'' = Some s
          \<and> prefix [HumanMessage (Text seed_request_text)] (messages s)"
    by (simp add: load_checkpoint_def ex_world_def empty_channels_def ex_closure_def ex_input_def)
  from a b show ?thesis by simp
qed







text \<open>
  C10.  When \<^verbatim>\<open>JSON.parse\<close> rejects the message of a continuing request, \<open>callAgent\<close>
  fails with that error and leaves the world as it was: no collaborator has been called
  and no checkpoint written.  The route answers with the generic failure.
\<close>

theorem non_json_message_fails_first:
  assumes "JSON_parse e message = Inl err"
  shows "callAgent e message threadId None w = (Inl err, w)
       \<and> post_chat_thread e threadId message w = (internal_server_error, w)"
  using assms by (simp add: callAgent_def post_chat_thread_def)

theorem non_json_message_fails_first_witness:
  "callAgent ex_env ''What did you recommend?'' ''t1'' None ex_world
       = (Inl (SyntaxError ''Unexpected token''), ex_world)
   \<and> post_chat_thread ex_env ''t1'' ''What did you recommend?'' ex_world
       = (internal_server_error, ex_world)"
proof -
  have "JSON_parse ex_env ''What did you recommend?'' = Inl (SyntaxError ''Unexpected token'')"
    by (simp add: ex_env_def)
  from non_json_message_fails_first[OF this] show ?thesis by simp
qed

end
